theory Spec2Isabelle
  imports Main
begin

section \<open>Python values used by the engine\<close>

text \<open>
  The engine (\<^verbatim>\<open>ChessEngine.py\<close>) works on Python lists and strings indexed by
  Python integers.  Indexing a list or a string with \<open>i\<close> reads position \<open>i\<close> when
  \<open>0 \<le> i < len\<close>, position \<open>len + i\<close> when \<open>-len \<le> i < 0\<close>, and raises
  \<^verbatim>\<open>IndexError\<close> otherwise.  A raised exception is the value \<open>None\<close> throughout;
  the engine catches no exception, so the first one ends the call.
\<close>

definition py_norm :: "nat \<Rightarrow> int \<Rightarrow> nat option" where
  "py_norm n i =
     (if 0 \<le> i \<and> i < int n then Some (nat i)
      else if i < 0 \<and> - int n \<le> i then Some (nat (int n + i))
      else None)"

definition py_get :: "'a list \<Rightarrow> int \<Rightarrow> 'a option" where
  "py_get xs i = (case py_norm (length xs) i of None \<Rightarrow> None | Some k \<Rightarrow> Some (xs ! k))"

definition py_set :: "'a list \<Rightarrow> int \<Rightarrow> 'a \<Rightarrow> 'a list option" where
  "py_set xs i v = (case py_norm (length xs) i of None \<Rightarrow> None | Some k \<Rightarrow> Some (xs[k := v]))"

text \<open>\<^verbatim>\<open>range(a, b)\<close> with step one.\<close>

definition py_range :: "int \<Rightarrow> int \<Rightarrow> int list" where
  "py_range a b = [a..b - 1]"

section \<open>The board\<close>

text \<open>
  \<^verbatim>\<open>self.board\<close> is a list of rows, each a list of piece tokens.  A token is a
  string: colour (\<^verbatim>\<open>w\<close>, \<^verbatim>\<open>b\<close>) then kind, or \<^verbatim>\<open>"--"\<close> for an empty square.
  \<^verbatim>\<open>board[r][c]\<close> and \<^verbatim>\<open>board[r][c] = v\<close> are the two accesses of the source.
\<close>

type_synonym board_t = "string list list"

definition board_get :: "board_t \<Rightarrow> int \<Rightarrow> int \<Rightarrow> string option" where
  "board_get b r c = (case py_get b r of None \<Rightarrow> None | Some row \<Rightarrow> py_get row c)"

definition board_set :: "board_t \<Rightarrow> int \<Rightarrow> int \<Rightarrow> string \<Rightarrow> board_t option" where
  "board_set b r c v =
     (case py_get b r of None \<Rightarrow> None
      | Some row \<Rightarrow>
          (case py_set row c v of None \<Rightarrow> None
           | Some row' \<Rightarrow> py_set b r row'))"

section \<open>CastlingRights and Move\<close>

record CastlingRights =
  wks :: bool
  bks :: bool
  wqs :: bool
  bqs :: bool

text \<open>
  A \<^verbatim>\<open>Move\<close> keeps its squares, the tokens read from the board when it was built,
  the three flags and \<^verbatim>\<open>move_id\<close>.  The field \<^verbatim>\<open>self.board\<close> of the source is a
  reference to the game's own board list, read by \<^verbatim>\<open>get_pgn\<close> only; it holds no data
  of the move and is not a field here.

  \<^verbatim>\<open>move_id = int(start_r*1e3 + start_c*1e2 + end_r*1e1 + end_c*1e0)\<close>: the floats
  are exact on integers of this size, so the identifier is the integer below.
\<close>

record Move =
  start_r :: int
  start_c :: int
  end_r :: int
  end_c :: int
  piece_moved :: string
  piece_captured :: string
  is_pawn_promotion :: bool
  is_en_passant :: bool
  is_castling :: bool
  move_id :: int

definition Move_init :: "int \<times> int \<Rightarrow> int \<times> int \<Rightarrow> board_t \<Rightarrow> bool \<Rightarrow> bool \<Rightarrow> bool \<Rightarrow> Move option" where
  "Move_init start_square end_square b promo ep castle =
     (case board_get b (fst start_square) (snd start_square) of None \<Rightarrow> None
      | Some pm \<Rightarrow>
     (case board_get b (fst end_square) (snd end_square) of None \<Rightarrow> None
      | Some pc \<Rightarrow>
        Some \<lparr> start_r = fst start_square, start_c = snd start_square,
               end_r = fst end_square, end_c = snd end_square,
               piece_moved = pm,
               piece_captured = (if ep then (if pm = ''wP'' then ''bP'' else ''wP'') else pc),
               is_pawn_promotion = promo, is_en_passant = ep, is_castling = castle,
               move_id = fst start_square * 1000 + snd start_square * 100
                          + fst end_square * 10 + snd end_square \<rparr>))"

text \<open>
  \<^verbatim>\<open>Move.__eq__(self, other)\<close>: \<open>other\<close> is any Python object; only another
  \<^verbatim>\<open>Move\<close> can be equal, and then the identifiers decide.
\<close>

datatype py_object = MoveObj Move | OtherObj

fun Move_eq :: "Move \<Rightarrow> py_object \<Rightarrow> bool" where
  "Move_eq m (MoveObj other) = (move_id m = move_id other)"
| "Move_eq m OtherObj = False"

section \<open>GameState\<close>

text \<open>
  The tuples \<^verbatim>\<open>en_passant_possible\<close>, \<^verbatim>\<open>possible_pin\<close> and \<^verbatim>\<open>pin_direction\<close> are
  either \<^verbatim>\<open>()\<close> (here \<open>None\<close>) or a tuple of integers.  The direction tables and
  the dispatch table \<^verbatim>\<open>move_functions\<close> never change and are constants below.
\<close>

record GameState =
  board :: board_t
  white_to_move :: bool
  move_log :: "Move list"
  white_king_location :: "int \<times> int"
  black_king_location :: "int \<times> int"
  current_player_is_in_check :: bool
  checks :: "(int \<times> int \<times> int \<times> int) list"
  pins :: "(int \<times> int \<times> int \<times> int) list"
  checkmate :: bool
  stalemate :: bool
  en_passant_possible :: "(int \<times> int) option"
  current_castling_rights :: CastlingRights
  castling_rights_log :: "CastlingRights list"

definition knight_dirs :: "(int \<times> int) list" where
  "knight_dirs = [(-2, -1), (-2, 1), (-1, -2), (-1, 2), (1, -2), (1, 2), (2, -1), (2, 1)]"

definition bishop_dirs :: "(int \<times> int) list" where
  "bishop_dirs = [(-1, -1), (-1, 1), (1, -1), (1, 1)]"

definition rook_dirs :: "(int \<times> int) list" where
  "rook_dirs = [(-1, 0), (0, -1), (1, 0), (0, 1)]"

definition king_dirs :: "(int \<times> int) list" where
  "king_dirs = [(-1, 0), (0, -1), (1, 0), (0, 1), (-1, -1), (-1, 1), (1, -1), (1, 1)]"

definition initial_board :: board_t where
  "initial_board =
    [[''bR'', ''bN'', ''bB'', ''bQ'', ''bK'', ''bB'', ''bN'', ''bR''],
     [''bP'', ''bP'', ''bP'', ''bP'', ''bP'', ''bP'', ''bP'', ''bP''],
     [''--'', ''--'', ''--'', ''--'', ''--'', ''--'', ''--'', ''--''],
     [''--'', ''--'', ''--'', ''--'', ''--'', ''--'', ''--'', ''--''],
     [''--'', ''--'', ''--'', ''--'', ''--'', ''--'', ''--'', ''--''],
     [''--'', ''--'', ''--'', ''--'', ''--'', ''--'', ''--'', ''--''],
     [''wP'', ''wP'', ''wP'', ''wP'', ''wP'', ''wP'', ''wP'', ''wP''],
     [''wR'', ''wN'', ''wB'', ''wQ'', ''wK'', ''wB'', ''wN'', ''wR'']]"

text \<open>\<^verbatim>\<open>GameState.__init__\<close>.\<close>

definition new_game :: GameState where
  "new_game =
    \<lparr> board = initial_board,
      white_to_move = True,
      move_log = [],
      white_king_location = (7, 4),
      black_king_location = (0, 4),
      current_player_is_in_check = False,
      checks = [],
      pins = [],
      checkmate = False,
      stalemate = False,
      en_passant_possible = None,
      current_castling_rights = \<lparr> wks = True, bks = True, wqs = True, bqs = True \<rparr>,
      castling_rights_log = [\<lparr> wks = True, bks = True, wqs = True, bqs = True \<rparr>] \<rparr>"

section \<open>make_move, undo_move, update_castling_rights\<close>

definition update_castling_rights :: "GameState \<Rightarrow> Move \<Rightarrow> GameState" where
  "update_castling_rights s m =
     (let ccr = current_castling_rights s;
          ccr1 =
            (if piece_moved m = ''wK'' then ccr\<lparr>wks := False, wqs := False\<rparr>
             else if piece_moved m = ''bK'' then ccr\<lparr>bks := False, bqs := False\<rparr>
             else if piece_moved m = ''wR'' then
               (if start_r m = 7 then
                  (if start_c m = 0 then ccr\<lparr>wqs := False\<rparr>
                   else if start_c m = 7 then ccr\<lparr>wks := False\<rparr>
                   else ccr)
                else ccr)
             else if piece_moved m = ''bR'' then
               (if start_r m = 0 then
                  (if start_c m = 0 then ccr\<lparr>bqs := False\<rparr>
                   else if start_c m = 7 then ccr\<lparr>bks := False\<rparr>
                   else ccr)
                else ccr)
             else ccr);
          n = int (length (board s)) - 1;
          ccr2 =
            (if piece_captured m = ''wR'' then
               (if end_r m = n then
                  (if end_c m = 0 then ccr1\<lparr>wqs := False\<rparr>
                   else if end_c m = n then ccr1\<lparr>wks := False\<rparr>
                   else ccr1)
                else ccr1)
             else if piece_captured m = ''bR'' then
               (if end_r m = 0 then
                  (if end_c m = 0 then ccr1\<lparr>bqs := False\<rparr>
                   else if end_c m = n then ccr1\<lparr>bks := False\<rparr>
                   else ccr1)
                else ccr1)
             else ccr1)
      in s\<lparr>current_castling_rights := ccr2\<rparr>)"

text \<open>
  The rook relocation of a castling move, and its reversal; both copy a square and
  then blank the source square, as the four assignments of the source do.
\<close>

definition move_rook :: "board_t \<Rightarrow> int \<Rightarrow> int \<Rightarrow> int \<Rightarrow> board_t option" where
  "move_rook b r c_to c_from =
     (case board_get b r c_from of None \<Rightarrow> None
      | Some rook \<Rightarrow>
          (case board_set b r c_to rook of None \<Rightarrow> None
           | Some b' \<Rightarrow> board_set b' r c_from ''--''))"

text \<open>
  \<^verbatim>\<open>make_move(self, m)\<close>.  The third argument is not an argument of the source: it
  is the console, read inside the call when the move is a promotion.  \<open>Some p\<close> is
  the value \<open>p\<close> of the expression \<^verbatim>\<open>input(...).upper()\<close>, which the source binds to
  \<^verbatim>\<open>promoted_piece\<close>; \<open>None\<close> is the end of input, where \<^verbatim>\<open>input\<close> raises
  \<^verbatim>\<open>EOFError\<close>.  Both \<^verbatim>\<open>input\<close> and \<^verbatim>\<open>str.upper\<close> are Python's own: the model takes
  their result as given and starts at the test \<^verbatim>\<open>promoted_piece == ""\<close>.
\<close>

definition make_move :: "GameState \<Rightarrow> Move \<Rightarrow> string option \<Rightarrow> GameState option" where
  "make_move s m console =
     (case board_set (board s) (start_r m) (start_c m) ''--'' of None \<Rightarrow> None
      | Some b1 \<Rightarrow>
     (case board_set b1 (end_r m) (end_c m) (piece_moved m) of None \<Rightarrow> None
      | Some b2 \<Rightarrow>
     (case py_get (piece_moved m) 1 of None \<Rightarrow> None
      | Some kind \<Rightarrow>
     (case (if is_en_passant m then board_set b2 (start_r m) (end_c m) ''--'' else Some b2) of
        None \<Rightarrow> None
      | Some b3 \<Rightarrow>
     (case (if is_pawn_promotion m then
              (case console of None \<Rightarrow> None
               | Some promoted_piece \<Rightarrow>
                   (case py_get (piece_moved m) 0 of None \<Rightarrow> None
                    | Some colour \<Rightarrow>
                        board_set b3 (end_r m) (end_c m)
                          (colour # (if promoted_piece = [] then ''Q'' else promoted_piece))))
            else Some b3) of
        None \<Rightarrow> None
      | Some b4 \<Rightarrow>
     (case (if is_castling m then
              (if end_c m - start_c m = 2
               then move_rook b4 (end_r m) (end_c m - 1) (end_c m + 1)
               else move_rook b4 (end_r m) (end_c m + 1) (end_c m - 2))
            else Some b4) of
        None \<Rightarrow> None
      | Some b5 \<Rightarrow>
        (let s1 = s\<lparr> board := b5,
                     move_log := move_log s @ [m],
                     white_to_move := \<not> white_to_move s,
                     white_king_location :=
                       (if piece_moved m = ''wK'' then (end_r m, end_c m)
                        else white_king_location s),
                     black_king_location :=
                       (if piece_moved m = ''wK'' then black_king_location s
                        else if piece_moved m = ''bK'' then (end_r m, end_c m)
                        else black_king_location s),
                     en_passant_possible :=
                       (if kind = CHR ''P'' \<and> \<bar>start_r m - end_r m\<bar> = 2
                        then Some ((start_r m + end_r m) div 2, end_c m)
                        else None) \<rparr>;
             s2 = update_castling_rights s1 m
         in Some (s2\<lparr> castling_rights_log :=
                        castling_rights_log s2 @ [current_castling_rights s2] \<rparr>))))))))"

text \<open>\<^verbatim>\<open>undo_move(self)\<close>.\<close>

definition undo_move :: "GameState \<Rightarrow> GameState option" where
  "undo_move s =
     (if length (move_log s) > 0 then
        (let m = last (move_log s) in
         (case board_set (board s) (start_r m) (start_c m) (piece_moved m) of None \<Rightarrow> None
          | Some b1 \<Rightarrow>
         (case board_set b1 (end_r m) (end_c m) (piece_captured m) of None \<Rightarrow> None
          | Some b2 \<Rightarrow>
         (case (if is_en_passant m then
                  (case board_set b2 (end_r m) (end_c m) ''--'' of None \<Rightarrow> None
                   | Some b' \<Rightarrow> board_set b' (start_r m) (end_c m) (piece_captured m))
                else Some b2) of
            None \<Rightarrow> None
          | Some b3 \<Rightarrow>
         (case py_get (piece_moved m) 1 of None \<Rightarrow> None
          | Some kind \<Rightarrow>
         (case castling_rights_log s of [] \<Rightarrow> None
          | _ # _ \<Rightarrow>
         (case py_get (butlast (castling_rights_log s)) (- 1) of None \<Rightarrow> None
          | Some ccr \<Rightarrow>
         (case (if is_castling m then
                  (if end_c m - start_c m = 2
                   then move_rook b3 (end_r m) (end_c m + 1) (end_c m - 1)
                   else move_rook b3 (end_r m) (end_c m - 2) (end_c m + 1))
                else Some b3) of
            None \<Rightarrow> None
          | Some b4 \<Rightarrow>
            Some (s\<lparr> board := b4,
                     move_log := butlast (move_log s),
                     white_to_move := \<not> white_to_move s,
                     white_king_location :=
                       (if piece_moved m = ''wK'' then (start_r m, start_c m)
                        else white_king_location s),
                     black_king_location :=
                       (if piece_moved m = ''wK'' then black_king_location s
                        else if piece_moved m = ''bK'' then (start_r m, start_c m)
                        else black_king_location s),
                     en_passant_possible :=
                       (if kind = CHR ''P'' \<and> \<bar>start_r m - end_r m\<bar> = 2 then None
                        else if is_en_passant m then Some (end_r m, end_c m)
                        else en_passant_possible s),
                     current_castling_rights :=
                       \<lparr> wks = wks ccr, bks = bks ccr, wqs = wqs ccr, bqs = bqs ccr \<rparr>,
                     castling_rights_log := butlast (castling_rights_log s) \<rparr>)))))))))
      else Some s)"

section \<open>The check and pin detector\<close>

type_synonym ray_t = "int \<times> int \<times> int \<times> int"

text \<open>
  The test both detectors apply to an enemy piece met at distance \<open>dist\<close> on the
  ray with index \<open>j\<close> of \<^verbatim>\<open>king_dirs\<close> (rays 0 to 3 are orthogonal, 4 to 7 diagonal).
\<close>

definition attack_match :: "int \<Rightarrow> int \<Rightarrow> char \<Rightarrow> char \<Rightarrow> bool" where
  "attack_match j dist piece_type enemy_color =
     (((0 \<le> j \<and> j \<le> 3) \<and> piece_type = CHR ''R'')
      \<or> ((4 \<le> j \<and> j \<le> 7) \<and> piece_type = CHR ''B'')
      \<or> ((dist = 1 \<and> piece_type = CHR ''P'')
          \<and> ((enemy_color = CHR ''w'' \<and> (6 \<le> j \<and> j \<le> 7))
              \<or> (enemy_color = CHR ''b'' \<and> (4 \<le> j \<and> j \<le> 5))))
      \<or> piece_type = CHR ''Q''
      \<or> (dist = 1 \<and> piece_type = CHR ''K''))"

text \<open>
  The inner loop of \<^verbatim>\<open>search_for_pins_and_checks\<close> over the distances of one ray.
  The accumulator is the triple of locals (in check, pins, checks); \<open>pp\<close> is
  \<^verbatim>\<open>possible_pin\<close>.  Every \<^verbatim>\<open>break\<close> returns the accumulator.
\<close>

fun pin_ray ::
  "board_t \<Rightarrow> char \<Rightarrow> char \<Rightarrow> int \<Rightarrow> int \<Rightarrow> int \<Rightarrow> int \<times> int \<Rightarrow> int list \<Rightarrow> ray_t option
     \<Rightarrow> bool \<times> ray_t list \<times> ray_t list \<Rightarrow> (bool \<times> ray_t list \<times> ray_t list) option" where
  "pin_ray b ally enemy king_r king_c j d [] pp acc = Some acc"
| "pin_ray b ally enemy king_r king_c j d (dist # ds) pp acc =
     (let test_r = king_r + fst d * dist; test_c = king_c + snd d * dist in
      if (0 \<le> test_r \<and> test_r < 8) \<and> (0 \<le> test_c \<and> test_c < 8) then
        (case board_get b test_r test_c of None \<Rightarrow> None
         | Some test_piece \<Rightarrow>
        (case py_get test_piece 0 of None \<Rightarrow> None
         | Some colour \<Rightarrow>
           if colour = ally then
             (if pp = None
              then pin_ray b ally enemy king_r king_c j d ds
                     (Some (test_r, test_c, fst d, snd d)) acc
              else Some acc)
           else if colour = enemy then
             (case py_get test_piece 1 of None \<Rightarrow> None
              | Some piece_type \<Rightarrow>
                  if attack_match j dist piece_type enemy then
                    (case pp of
                       None \<Rightarrow>
                         Some (True, fst (snd acc),
                               snd (snd acc) @ [(test_r, test_c, fst d, snd d)])
                     | Some pin \<Rightarrow>
                         Some (fst acc, fst (snd acc) @ [pin], snd (snd acc)))
                  else Some acc)
           else pin_ray b ally enemy king_r king_c j d ds pp acc))
      else Some acc)"

fun pin_dirs ::
  "board_t \<Rightarrow> char \<Rightarrow> char \<Rightarrow> int \<Rightarrow> int \<Rightarrow> (int \<times> int \<times> int) list
     \<Rightarrow> bool \<times> ray_t list \<times> ray_t list \<Rightarrow> (bool \<times> ray_t list \<times> ray_t list) option" where
  "pin_dirs b ally enemy king_r king_c [] acc = Some acc"
| "pin_dirs b ally enemy king_r king_c (jd # jds) acc =
     (case pin_ray b ally enemy king_r king_c (fst jd) (snd jd) (py_range 1 8) None acc of
        None \<Rightarrow> None
      | Some acc' \<Rightarrow> pin_dirs b ally enemy king_r king_c jds acc')"

fun knight_checks ::
  "board_t \<Rightarrow> char \<Rightarrow> int \<Rightarrow> int \<Rightarrow> (int \<times> int) list
     \<Rightarrow> bool \<times> ray_t list \<Rightarrow> (bool \<times> ray_t list) option" where
  "knight_checks b enemy king_r king_c [] acc = Some acc"
| "knight_checks b enemy king_r king_c (d # ds) acc =
     (let er = king_r + fst d; ec = king_c + snd d in
      if (0 \<le> er \<and> er < 8) \<and> (0 \<le> ec \<and> ec < 8) then
        (case board_get b er ec of None \<Rightarrow> None
         | Some end_piece \<Rightarrow>
        (case py_get end_piece 0 of None \<Rightarrow> None
         | Some colour \<Rightarrow>
           if colour = enemy then
             (case py_get end_piece 1 of None \<Rightarrow> None
              | Some kind \<Rightarrow>
                  if kind = CHR ''N''
                  then knight_checks b enemy king_r king_c ds
                         (True, snd acc @ [(er, ec, fst d, snd d)])
                  else knight_checks b enemy king_r king_c ds acc)
           else knight_checks b enemy king_r king_c ds acc))
      else knight_checks b enemy king_r king_c ds acc)"

text \<open>
  \<^verbatim>\<open>for j in range(len(self.king_dirs)): dir_j = self.king_dirs[j]\<close>: the
  directions with their indices.
\<close>

definition indexed_king_dirs :: "(int \<times> int \<times> int) list" where
  "indexed_king_dirs = zip (py_range 0 (int (length king_dirs))) king_dirs"

text \<open>
  \<^verbatim>\<open>search_for_pins_and_checks(self)\<close> returns
  \<^verbatim>\<open>(current_player_is_in_check, pins, checks)\<close>; the state after the call is
  returned with it.
\<close>

definition search_for_pins_and_checks ::
  "GameState \<Rightarrow> ((bool \<times> ray_t list \<times> ray_t list) \<times> GameState) option" where
  "search_for_pins_and_checks s =
     (let enemy_color = (if white_to_move s then CHR ''b'' else CHR ''w'');
          ally_color = (if white_to_move s then CHR ''w'' else CHR ''b'');
          king_r = (if white_to_move s then fst (white_king_location s)
                    else fst (black_king_location s));
          king_c = (if white_to_move s then snd (white_king_location s)
                    else snd (black_king_location s))
      in case pin_dirs (board s) ally_color enemy_color king_r king_c indexed_king_dirs
                (False, [], []) of
           None \<Rightarrow> None
         | Some acc \<Rightarrow>
             (case knight_checks (board s) enemy_color king_r king_c knight_dirs
                     (fst acc, snd (snd acc)) of
                None \<Rightarrow> None
              | Some kacc \<Rightarrow> Some ((fst kacc, fst (snd acc), snd kacc), s)))"

text \<open>
  \<^verbatim>\<open>search_for_attacks(self, r, c, enemy_c)\<close>: one ray returns \<open>Some True\<close> when the
  source executes \<^verbatim>\<open>return True\<close>, and \<open>Some False\<close> when the ray ends.
\<close>

fun attack_ray ::
  "board_t \<Rightarrow> char \<Rightarrow> char \<Rightarrow> int \<Rightarrow> int \<Rightarrow> int \<Rightarrow> int \<times> int \<Rightarrow> int list \<Rightarrow> bool option" where
  "attack_ray b ally_c enemy_c r c j d [] = Some False"
| "attack_ray b ally_c enemy_c r c j d (dist # ds) =
     (let er = r + fst d * dist; ec = c + snd d * dist; n = int (length b) in
      if (0 \<le> er \<and> er < n) \<and> (0 \<le> ec \<and> ec < n) then
        (case board_get b er ec of None \<Rightarrow> None
         | Some end_piece \<Rightarrow>
        (case py_get end_piece 0 of None \<Rightarrow> None
         | Some colour \<Rightarrow>
           if colour = ally_c then Some False
           else if colour = enemy_c then
             (case py_get end_piece 1 of None \<Rightarrow> None
              | Some enemy_piece_type \<Rightarrow>
                  if attack_match j dist enemy_piece_type enemy_c then Some True
                  else Some False)
           else attack_ray b ally_c enemy_c r c j d ds))
      else Some False)"

fun attack_dirs ::
  "board_t \<Rightarrow> char \<Rightarrow> char \<Rightarrow> int \<Rightarrow> int \<Rightarrow> (int \<times> int \<times> int) list \<Rightarrow> bool option" where
  "attack_dirs b ally_c enemy_c r c [] = Some False"
| "attack_dirs b ally_c enemy_c r c (jd # jds) =
     (case attack_ray b ally_c enemy_c r c (fst jd) (snd jd)
             (py_range 1 (int (length b))) of
        None \<Rightarrow> None
      | Some True \<Rightarrow> Some True
      | Some False \<Rightarrow> attack_dirs b ally_c enemy_c r c jds)"

fun knight_attacks :: "board_t \<Rightarrow> char \<Rightarrow> int \<Rightarrow> int \<Rightarrow> (int \<times> int) list \<Rightarrow> bool option" where
  "knight_attacks b enemy_c r c [] = Some False"
| "knight_attacks b enemy_c r c (d # ds) =
     (let er = r + fst d; ec = c + snd d in
      if 0 \<le> er \<and> er < int (length b) then
        (case py_get b er of None \<Rightarrow> None
         | Some row \<Rightarrow>
             if 0 \<le> ec \<and> ec < int (length row) then
               (case py_get row ec of None \<Rightarrow> None
                | Some end_piece \<Rightarrow>
               (case py_get end_piece 0 of None \<Rightarrow> None
                | Some colour \<Rightarrow>
                  if colour = enemy_c then
                    (case py_get end_piece 1 of None \<Rightarrow> None
                     | Some kind \<Rightarrow>
                         if kind = CHR ''N'' then Some True
                         else knight_attacks b enemy_c r c ds)
                  else knight_attacks b enemy_c r c ds))
             else knight_attacks b enemy_c r c ds)
      else knight_attacks b enemy_c r c ds)"

definition search_for_attacks :: "GameState \<Rightarrow> int \<Rightarrow> int \<Rightarrow> char \<Rightarrow> bool option" where
  "search_for_attacks s r c enemy_c =
     (let ally_c = (if enemy_c = CHR ''b'' then CHR ''w'' else CHR ''b'') in
      case attack_dirs (board s) ally_c enemy_c r c indexed_king_dirs of
        None \<Rightarrow> None
      | Some True \<Rightarrow> Some True
      | Some False \<Rightarrow> knight_attacks (board s) enemy_c r c knight_dirs)"

section \<open>The piece generators\<close>

text \<open>
  Every generator of the source is a method \<^verbatim>\<open>(self, r, c, moves)\<close> that appends
  to the list \<open>moves\<close> and may remove an entry of \<^verbatim>\<open>self.pins\<close>; here it returns the
  list and the state.

  The search through \<^verbatim>\<open>self.pins\<close> runs from the last index down to 0, stops at the
  first entry for the square \<open>(r, c)\<close> and removes it with \<^verbatim>\<open>list.remove\<close>, which
  deletes the first entry equal to it.
\<close>

definition take_pin :: "ray_t list \<Rightarrow> int \<Rightarrow> int \<Rightarrow> ray_t option \<times> ray_t list" where
  "take_pin ps r c =
     (case find (\<lambda>p. fst p = r \<and> fst (snd p) = c) (rev ps) of
        None \<Rightarrow> (None, ps)
      | Some p \<Rightarrow> (Some p, remove1 p ps))"

definition pin_dir_of :: "ray_t option \<Rightarrow> (int \<times> int) option" where
  "pin_dir_of p = map_option (\<lambda>q. (fst (snd (snd q)), snd (snd (snd q)))) p"

subsection \<open>Pawns\<close>

text \<open>
  The advance block and one capture block of \<^verbatim>\<open>get_pawn_moves\<close>.  The local
  \<^verbatim>\<open>pawn_promotion\<close> is carried from block to block (\<open>pp\<close>), as in the source.
\<close>

definition pawn_advance ::
  "board_t \<Rightarrow> int \<Rightarrow> int \<Rightarrow> int \<Rightarrow> int \<Rightarrow> int \<Rightarrow> bool \<Rightarrow> (int \<times> int) option \<Rightarrow> Move list
     \<Rightarrow> (bool \<times> Move list) option" where
  "pawn_advance b r c move_amount start_row promo_r piece_pinned pin_direction moves =
     (case board_get b (r + move_amount) c of None \<Rightarrow> None
      | Some ahead \<Rightarrow>
          if ahead = ''--'' then
            (if \<not> piece_pinned \<or> pin_direction = Some (move_amount, 0) then
               (let pp = (r + move_amount = promo_r) in
                case Move_init (r, c) (r + move_amount, c) b pp False False of None \<Rightarrow> None
                | Some m1 \<Rightarrow>
                    if r = start_row then
                      (case board_get b (r + 2 * move_amount) c of None \<Rightarrow> None
                       | Some ahead2 \<Rightarrow>
                           if ahead2 = ''--'' then
                             (case Move_init (r, c) (r + 2 * move_amount, c) b False False False of
                                None \<Rightarrow> None
                              | Some m2 \<Rightarrow> Some (pp, moves @ [m1, m2]))
                           else Some (pp, moves @ [m1]))
                    else Some (pp, moves @ [m1]))
             else Some (False, moves))
          else Some (False, moves))"

definition pawn_capture ::
  "board_t \<Rightarrow> int \<Rightarrow> int \<Rightarrow> int \<Rightarrow> int \<Rightarrow> int \<Rightarrow> char \<Rightarrow> bool \<Rightarrow> (int \<times> int) option
     \<Rightarrow> (int \<times> int) option \<Rightarrow> bool \<times> Move list \<Rightarrow> (bool \<times> Move list) option" where
  "pawn_capture b r c dc move_amount promo_r enemy_c piece_pinned pin_direction ep acc =
     (if \<not> piece_pinned \<or> pin_direction = Some (move_amount, dc) then
        (case board_get b (r + move_amount) (c + dc) of None \<Rightarrow> None
         | Some target \<Rightarrow>
        (case py_get target 0 of None \<Rightarrow> None
         | Some colour \<Rightarrow>
        (case (if colour = enemy_c then
                 (let pp = (if r + move_amount = promo_r then True else fst acc) in
                  case Move_init (r, c) (r + move_amount, c + dc) b pp False False of
                    None \<Rightarrow> None
                  | Some m \<Rightarrow> Some (pp, snd acc @ [m]))
               else Some acc) of
           None \<Rightarrow> None
         | Some acc1 \<Rightarrow>
             if Some (r + move_amount, c + dc) = ep then
               (case Move_init (r, c) (r + move_amount, c + dc) b False True False of
                  None \<Rightarrow> None
                | Some m \<Rightarrow> Some (fst acc1, snd acc1 @ [m]))
             else Some acc1)))
      else Some acc)"

definition get_pawn_moves ::
  "int \<Rightarrow> int \<Rightarrow> Move list \<Rightarrow> GameState \<Rightarrow> (Move list \<times> GameState) option" where
  "get_pawn_moves r c moves s =
     (let tp = take_pin (pins s) r c;
          piece_pinned = (fst tp \<noteq> None);
          pin_direction = pin_dir_of (fst tp);
          s' = s\<lparr>pins := snd tp\<rparr>;
          move_amount = (if white_to_move s then - 1 else 1);
          start_row = (if white_to_move s then 6 else 1);
          promo_r = (if white_to_move s then 0 else 7);
          enemy_c = (if white_to_move s then CHR ''b'' else CHR ''w'');
          b = board s
      in case pawn_advance b r c move_amount start_row promo_r piece_pinned pin_direction moves of
           None \<Rightarrow> None
         | Some acc1 \<Rightarrow>
        (case (if c - 1 \<ge> 0
               then pawn_capture b r c (- 1) move_amount promo_r enemy_c piece_pinned
                      pin_direction (en_passant_possible s) acc1
               else Some acc1) of
           None \<Rightarrow> None
         | Some acc2 \<Rightarrow>
        (case (if c + 1 \<le> int (length b) - 1
               then pawn_capture b r c 1 move_amount promo_r enemy_c piece_pinned
                      pin_direction (en_passant_possible s) acc2
               else Some acc2) of
           None \<Rightarrow> None
         | Some acc3 \<Rightarrow> Some (snd acc3, s'))))"

subsection \<open>Knights\<close>

fun knight_loop ::
  "board_t \<Rightarrow> char \<Rightarrow> int \<Rightarrow> int \<Rightarrow> bool \<Rightarrow> (int \<times> int) list \<Rightarrow> Move list \<Rightarrow> Move list option" where
  "knight_loop b ally_c r c piece_pinned [] moves = Some moves"
| "knight_loop b ally_c r c piece_pinned (d # ds) moves =
     (let er = r + fst d; ec = c + snd d in
      if (0 \<le> er \<and> er < 8) \<and> (0 \<le> ec \<and> ec < 8) then
        (if \<not> piece_pinned then
           (case board_get b er ec of None \<Rightarrow> None
            | Some end_piece \<Rightarrow>
           (case py_get end_piece 0 of None \<Rightarrow> None
            | Some colour \<Rightarrow>
                if \<not> (colour = ally_c) then
                  (case Move_init (r, c) (er, ec) b False False False of None \<Rightarrow> None
                   | Some m \<Rightarrow> knight_loop b ally_c r c piece_pinned ds (moves @ [m]))
                else knight_loop b ally_c r c piece_pinned ds moves))
         else knight_loop b ally_c r c piece_pinned ds moves)
      else knight_loop b ally_c r c piece_pinned ds moves)"

definition get_knight_moves ::
  "int \<Rightarrow> int \<Rightarrow> Move list \<Rightarrow> GameState \<Rightarrow> (Move list \<times> GameState) option" where
  "get_knight_moves r c moves s =
     (let tp = take_pin (pins s) r c;
          piece_pinned = (fst tp \<noteq> None);
          ally_c = (if white_to_move s then CHR ''w'' else CHR ''b'')
      in case knight_loop (board s) ally_c r c piece_pinned knight_dirs moves of
           None \<Rightarrow> None
         | Some moves' \<Rightarrow> Some (moves', s\<lparr>pins := snd tp\<rparr>))"

subsection \<open>Bishops, rooks and queens\<close>

text \<open>
  The three sliding generators of the source have the same body and differ in the
  direction table only; \<open>slide_ray\<close> is the loop over the distances of one direction
  and \<open>slide_dirs\<close> the loop over the table.
\<close>

fun slide_ray ::
  "board_t \<Rightarrow> char \<Rightarrow> int \<Rightarrow> int \<Rightarrow> bool \<Rightarrow> (int \<times> int) option \<Rightarrow> int \<times> int \<Rightarrow> int list
     \<Rightarrow> Move list \<Rightarrow> Move list option" where
  "slide_ray b enemy_c r c piece_pinned pin_direction d [] moves = Some moves"
| "slide_ray b enemy_c r c piece_pinned pin_direction d (dist # ds) moves =
     (let er = r + fst d * dist; ec = c + snd d * dist in
      if (0 \<le> er \<and> er < 8) \<and> (0 \<le> ec \<and> ec < 8) then
        (if \<not> piece_pinned \<or> pin_direction = Some d
            \<or> pin_direction = Some (- fst d, - snd d) then
           (case board_get b er ec of None \<Rightarrow> None
            | Some end_piece \<Rightarrow>
                if end_piece = ''--'' then
                  (case Move_init (r, c) (er, ec) b False False False of None \<Rightarrow> None
                   | Some m \<Rightarrow>
                       slide_ray b enemy_c r c piece_pinned pin_direction d ds (moves @ [m]))
                else
                  (case py_get end_piece 0 of None \<Rightarrow> None
                   | Some colour \<Rightarrow>
                       if colour = enemy_c then
                         (case Move_init (r, c) (er, ec) b False False False of None \<Rightarrow> None
                          | Some m \<Rightarrow> Some (moves @ [m]))
                       else Some moves))
         else slide_ray b enemy_c r c piece_pinned pin_direction d ds moves)
      else Some moves)"

fun slide_dirs ::
  "board_t \<Rightarrow> char \<Rightarrow> int \<Rightarrow> int \<Rightarrow> bool \<Rightarrow> (int \<times> int) option \<Rightarrow> (int \<times> int) list
     \<Rightarrow> Move list \<Rightarrow> Move list option" where
  "slide_dirs b enemy_c r c piece_pinned pin_direction [] moves = Some moves"
| "slide_dirs b enemy_c r c piece_pinned pin_direction (d # ds) moves =
     (case slide_ray b enemy_c r c piece_pinned pin_direction d (py_range 1 8) moves of
        None \<Rightarrow> None
      | Some moves' \<Rightarrow> slide_dirs b enemy_c r c piece_pinned pin_direction ds moves')"

definition slide_moves ::
  "(int \<times> int) list \<Rightarrow> int \<Rightarrow> int \<Rightarrow> Move list \<Rightarrow> GameState \<Rightarrow> (Move list \<times> GameState) option" where
  "slide_moves dirs r c moves s =
     (let tp = take_pin (pins s) r c;
          piece_pinned = (fst tp \<noteq> None);
          pin_direction = pin_dir_of (fst tp);
          enemy_c = (if white_to_move s then CHR ''b'' else CHR ''w'')
      in case slide_dirs (board s) enemy_c r c piece_pinned pin_direction dirs moves of
           None \<Rightarrow> None
         | Some moves' \<Rightarrow> Some (moves', s\<lparr>pins := snd tp\<rparr>))"

definition get_bishop_moves ::
  "int \<Rightarrow> int \<Rightarrow> Move list \<Rightarrow> GameState \<Rightarrow> (Move list \<times> GameState) option" where
  "get_bishop_moves r c moves s = slide_moves bishop_dirs r c moves s"

definition get_rook_moves ::
  "int \<Rightarrow> int \<Rightarrow> Move list \<Rightarrow> GameState \<Rightarrow> (Move list \<times> GameState) option" where
  "get_rook_moves r c moves s = slide_moves rook_dirs r c moves s"

definition get_queen_moves ::
  "int \<Rightarrow> int \<Rightarrow> Move list \<Rightarrow> GameState \<Rightarrow> (Move list \<times> GameState) option" where
  "get_queen_moves r c moves s = slide_moves king_dirs r c moves s"

subsection \<open>Castling\<close>

text \<open>
  The castling generators read the state and append to \<open>moves\<close>; they assign no field.
  \<^verbatim>\<open>not (A and B)\<close> evaluates \<open>B\<close> only when \<open>A\<close> is true.
\<close>

definition get_king_side_castling_moves ::
  "int \<Rightarrow> int \<Rightarrow> Move list \<Rightarrow> GameState \<Rightarrow> Move list option" where
  "get_king_side_castling_moves r c moves s =
     (let ec = (if white_to_move s then CHR ''b'' else CHR ''w'') in
      case board_get (board s) r (c + 1) of None \<Rightarrow> None
      | Some p1 \<Rightarrow>
          if p1 = ''--'' then
            (case board_get (board s) r (c + 2) of None \<Rightarrow> None
             | Some p2 \<Rightarrow>
                 if p2 = ''--'' then
                   (case search_for_attacks s r (c + 1) ec of None \<Rightarrow> None
                    | Some a1 \<Rightarrow>
                   (case (if a1 then search_for_attacks s r (c + 2) ec else Some False) of
                      None \<Rightarrow> None
                    | Some both \<Rightarrow>
                        if \<not> both then
                          (case Move_init (r, c) (r, c + 2) (board s) False False True of
                             None \<Rightarrow> None
                           | Some m \<Rightarrow> Some (moves @ [m]))
                        else Some moves))
                 else Some moves)
          else Some moves)"

definition get_queen_side_castling_moves ::
  "int \<Rightarrow> int \<Rightarrow> Move list \<Rightarrow> GameState \<Rightarrow> Move list option" where
  "get_queen_side_castling_moves r c moves s =
     (let ec = (if white_to_move s then CHR ''b'' else CHR ''w'') in
      case board_get (board s) r (c - 1) of None \<Rightarrow> None
      | Some p1 \<Rightarrow>
          if p1 = ''--'' then
            (case board_get (board s) r (c - 2) of None \<Rightarrow> None
             | Some p2 \<Rightarrow>
                 if p2 = ''--'' then
                   (case board_get (board s) r (c - 3) of None \<Rightarrow> None
                    | Some p3 \<Rightarrow>
                        if p3 = ''--'' then
                          (case search_for_attacks s r (c - 1) ec of None \<Rightarrow> None
                           | Some a1 \<Rightarrow>
                          (case (if a1 then search_for_attacks s r (c - 2) ec
                                 else Some False) of
                             None \<Rightarrow> None
                           | Some both \<Rightarrow>
                               if \<not> both then
                                 (case Move_init (r, c) (r, c - 2) (board s) False False True of
                                    None \<Rightarrow> None
                                  | Some m \<Rightarrow> Some (moves @ [m]))
                               else Some moves))
                        else Some moves)
                 else Some moves)
          else Some moves)"

definition get_castling_moves :: "int \<Rightarrow> int \<Rightarrow> Move list \<Rightarrow> GameState \<Rightarrow> Move list option" where
  "get_castling_moves r c moves s =
     (let w = white_to_move s;
          ec = (if white_to_move s then CHR ''b'' else CHR ''w'')
      in case (if w then search_for_attacks s (fst (white_king_location s))
                           (snd (white_king_location s)) ec
               else search_for_attacks s (fst (black_king_location s))
                      (snd (black_king_location s)) ec) of
           None \<Rightarrow> None
         | Some True \<Rightarrow> Some moves
         | Some False \<Rightarrow>
             (case (if (white_to_move s \<and> wks (current_castling_rights s))
                       \<or> (\<not> white_to_move s \<and> bks (current_castling_rights s))
                    then get_king_side_castling_moves r c moves s
                    else Some moves) of
                None \<Rightarrow> None
              | Some moves1 \<Rightarrow>
                  if (white_to_move s \<and> wqs (current_castling_rights s))
                     \<or> (\<not> white_to_move s \<and> bqs (current_castling_rights s))
                  then get_queen_side_castling_moves r c moves1 s
                  else Some moves1))"

subsection \<open>Kings\<close>

text \<open>
  For each candidate square the source writes the square into the king-location
  field of the side to move, runs the detector, and then writes \<open>(r, c)\<close> back.
\<close>

definition set_king_location :: "char \<Rightarrow> int \<times> int \<Rightarrow> GameState \<Rightarrow> GameState" where
  "set_king_location ally_c sq s =
     (if ally_c = CHR ''w'' then s\<lparr>white_king_location := sq\<rparr>
      else s\<lparr>black_king_location := sq\<rparr>)"

fun king_loop ::
  "int \<Rightarrow> int \<Rightarrow> char \<Rightarrow> (int \<times> int) list \<Rightarrow> Move list \<Rightarrow> GameState
     \<Rightarrow> (Move list \<times> GameState) option" where
  "king_loop r c ally_c [] moves s = Some (moves, s)"
| "king_loop r c ally_c (d # ds) moves s =
     (let er = r + fst d; ec = c + snd d in
      if (0 \<le> er \<and> er < 8) \<and> (0 \<le> ec \<and> ec < 8) then
        (case board_get (board s) er ec of None \<Rightarrow> None
         | Some end_piece \<Rightarrow>
        (case py_get end_piece 0 of None \<Rightarrow> None
         | Some colour \<Rightarrow>
             if \<not> (colour = ally_c) then
               (case search_for_pins_and_checks (set_king_location ally_c (er, ec) s) of
                  None \<Rightarrow> None
                | Some res \<Rightarrow>
               (case (if \<not> fst (fst res) then
                        (case Move_init (r, c) (er, ec) (board (snd res)) False False False of
                           None \<Rightarrow> None
                         | Some m \<Rightarrow> Some (moves @ [m]))
                      else Some moves) of
                  None \<Rightarrow> None
                | Some moves' \<Rightarrow>
                    king_loop r c ally_c ds moves'
                      (set_king_location ally_c (r, c) (snd res))))
             else king_loop r c ally_c ds moves s))
      else king_loop r c ally_c ds moves s)"

definition get_king_moves ::
  "int \<Rightarrow> int \<Rightarrow> Move list \<Rightarrow> GameState \<Rightarrow> (Move list \<times> GameState) option" where
  "get_king_moves r c moves s =
     (let ally_c = (if white_to_move s then CHR ''w'' else CHR ''b'') in
      case king_loop r c ally_c king_dirs moves s of None \<Rightarrow> None
      | Some res \<Rightarrow>
          (case get_castling_moves r c (fst res) (snd res) of None \<Rightarrow> None
           | Some moves' \<Rightarrow> Some (moves', snd res)))"

section \<open>All pseudo-legal moves\<close>

text \<open>
  The dictionary \<^verbatim>\<open>self.move_functions\<close>; a kind letter that is not a key raises
  \<^verbatim>\<open>KeyError\<close>.
\<close>

definition move_functions ::
  "char \<Rightarrow> (int \<Rightarrow> int \<Rightarrow> Move list \<Rightarrow> GameState \<Rightarrow> (Move list \<times> GameState) option) option" where
  "move_functions k =
     (if k = CHR ''P'' then Some get_pawn_moves
      else if k = CHR ''N'' then Some get_knight_moves
      else if k = CHR ''B'' then Some get_bishop_moves
      else if k = CHR ''R'' then Some get_rook_moves
      else if k = CHR ''Q'' then Some get_queen_moves
      else if k = CHR ''K'' then Some get_king_moves
      else None)"

fun possible_moves_row ::
  "int \<Rightarrow> int list \<Rightarrow> Move list \<Rightarrow> GameState \<Rightarrow> (Move list \<times> GameState) option" where
  "possible_moves_row r [] moves s = Some (moves, s)"
| "possible_moves_row r (c # cs) moves s =
     (case board_get (board s) r c of None \<Rightarrow> None
      | Some piece \<Rightarrow>
     (case py_get piece 0 of None \<Rightarrow> None
      | Some piece_color \<Rightarrow>
          if (white_to_move s \<and> piece_color = CHR ''w'')
             \<or> (\<not> white_to_move s \<and> piece_color = CHR ''b'') then
            (case py_get piece 1 of None \<Rightarrow> None
             | Some piece_type \<Rightarrow>
            (case move_functions piece_type of None \<Rightarrow> None
             | Some gen \<Rightarrow>
            (case gen r c moves s of None \<Rightarrow> None
             | Some res \<Rightarrow> possible_moves_row r cs (fst res) (snd res))))
          else possible_moves_row r cs moves s))"

fun possible_moves_rows ::
  "int list \<Rightarrow> Move list \<Rightarrow> GameState \<Rightarrow> (Move list \<times> GameState) option" where
  "possible_moves_rows [] moves s = Some (moves, s)"
| "possible_moves_rows (r # rs) moves s =
     (case py_get (board s) r of None \<Rightarrow> None
      | Some row \<Rightarrow>
          (case possible_moves_row r (py_range 0 (int (length row))) moves s of None \<Rightarrow> None
           | Some res \<Rightarrow> possible_moves_rows rs (fst res) (snd res)))"

definition get_all_possible_moves :: "GameState \<Rightarrow> (Move list \<times> GameState) option" where
  "get_all_possible_moves s =
     possible_moves_rows (py_range 0 (int (length (board s)))) [] s"

section \<open>The material classifier\<close>

text \<open>
  \<^verbatim>\<open>for r in range(8): for c in range(8)\<close>: the squares in scan order.
\<close>

definition all_squares :: "(int \<times> int) list" where
  "all_squares = concat (map (\<lambda>r. map (\<lambda>c. (r, c)) (py_range 0 8)) (py_range 0 8))"

fun collect_active :: "board_t \<Rightarrow> (int \<times> int) list \<Rightarrow> string list \<Rightarrow> string list option" where
  "collect_active b [] active_pieces = Some active_pieces"
| "collect_active b (sq # sqs) active_pieces =
     (case board_get b (fst sq) (snd sq) of None \<Rightarrow> None
      | Some piece \<Rightarrow>
     (case py_get piece 1 of None \<Rightarrow> None
      | Some kind \<Rightarrow>
          if \<not> (kind = CHR ''K'' \<or> piece = ''--'')
          then collect_active b sqs (active_pieces @ [piece])
          else collect_active b sqs active_pieces))"

text \<open>
  The second scan, for two bishops of one team: the locals
  \<^verbatim>\<open>(parity_1st_bishop, first_bishop_found, parity_2nd_bishop)\<close>.
\<close>

fun bishop_parities ::
  "board_t \<Rightarrow> (int \<times> int) list \<Rightarrow> int \<times> bool \<times> int \<Rightarrow> (int \<times> bool \<times> int) option" where
  "bishop_parities b [] acc = Some acc"
| "bishop_parities b (sq # sqs) acc =
     (case board_get b (fst sq) (snd sq) of None \<Rightarrow> None
      | Some piece \<Rightarrow>
     (case py_get piece 1 of None \<Rightarrow> None
      | Some kind \<Rightarrow>
          if kind = CHR ''B'' then
            (if \<not> fst (snd acc)
             then bishop_parities b sqs (fst sq + snd sq, True, snd (snd acc))
             else bishop_parities b sqs (fst acc, fst (snd acc), fst sq + snd sq))
          else bishop_parities b sqs acc))"

text \<open>
  \<^verbatim>\<open>search_for_material_stalemate(self)\<close>.  The tokens of \<open>active_pieces\<close> have
  passed the read of their second character, so \<^verbatim>\<open>j[0]\<close> and \<^verbatim>\<open>j[1]\<close> in the
  comprehensions cannot raise.
\<close>

definition search_for_material_stalemate :: "GameState \<Rightarrow> bool option" where
  "search_for_material_stalemate s =
     (case collect_active (board s) all_squares [] of None \<Rightarrow> None
      | Some active_pieces \<Rightarrow>
          if length active_pieces = 0 then Some True
          else if length active_pieces = 1 then
            (case py_get active_pieces 0 of None \<Rightarrow> None
             | Some active_piece \<Rightarrow>
                 Some (py_get active_piece 1 = Some CHR ''N''
                       \<or> py_get active_piece 1 = Some CHR ''B''))
          else if length active_pieces = 2 then
            (if list_all (\<lambda>j. j = ''bB'') active_pieces
                \<or> list_all (\<lambda>j. j = ''wB'') active_pieces then
               (case bishop_parities (board s) all_squares (0, False, 0) of None \<Rightarrow> None
                | Some par \<Rightarrow> Some ((fst par + snd (snd par)) mod 2 = 0))
             else if list_all (\<lambda>j. py_get j 1 = Some CHR ''B'') active_pieces
                     \<and> (list_ex (\<lambda>j. py_get j 0 = Some CHR ''w'') active_pieces
                         \<and> list_ex (\<lambda>j. py_get j 0 = Some CHR ''b'') active_pieces)
               then Some True
             else if list_all (\<lambda>j. j = ''wN'') active_pieces
                     \<or> list_all (\<lambda>j. j = ''bN'') active_pieces
               then Some True
             else Some False)
          else Some False)"

section \<open>The legal-move filter\<close>

text \<open>
  \<^verbatim>\<open>moves.remove(m)\<close> deletes the first element that \<^verbatim>\<open>__eq__\<close> accepts.
\<close>

fun remove_move :: "Move \<Rightarrow> Move list \<Rightarrow> Move list" where
  "remove_move m [] = []"
| "remove_move m (x # xs) = (if Move_eq x (MoveObj m) then xs else x # remove_move m xs)"

text \<open>
  The squares from the king towards the checking piece, up to and including it.
\<close>

fun valid_squares_loop ::
  "int \<Rightarrow> int \<Rightarrow> ray_t \<Rightarrow> int list \<Rightarrow> (int \<times> int) list \<Rightarrow> (int \<times> int) list" where
  "valid_squares_loop king_r king_c check_info [] valid_squares = valid_squares"
| "valid_squares_loop king_r king_c check_info (dist # ds) valid_squares =
     (let valid_square = (king_r + dist * fst (snd (snd check_info)),
                          king_c + dist * snd (snd (snd check_info)))
      in if fst valid_square = fst check_info \<and> snd valid_square = fst (snd check_info)
         then valid_squares @ [valid_square]
         else valid_squares_loop king_r king_c check_info ds (valid_squares @ [valid_square]))"

text \<open>
  \<^verbatim>\<open>for j in range(len(moves)-1, -1, -1)\<close>: the indices are fixed when the loop
  starts, the list shrinks while it runs.
\<close>

fun prune_moves :: "int list \<Rightarrow> (int \<times> int) list \<Rightarrow> Move list \<Rightarrow> Move list option" where
  "prune_moves [] valid_squares moves = Some moves"
| "prune_moves (j # js) valid_squares moves =
     (case py_get moves j of None \<Rightarrow> None
      | Some m \<Rightarrow>
     (case py_get (piece_moved m) 1 of None \<Rightarrow> None
      | Some kind \<Rightarrow>
          if kind \<noteq> CHR ''K'' then
            (if \<not> ((end_r m, end_c m) \<in> set valid_squares)
             then prune_moves js valid_squares (remove_move m moves)
             else prune_moves js valid_squares moves)
          else prune_moves js valid_squares moves))"

definition single_check_moves ::
  "int \<Rightarrow> int \<Rightarrow> GameState \<Rightarrow> (Move list \<times> GameState) option" where
  "single_check_moves king_r king_c s =
     (case get_all_possible_moves s of None \<Rightarrow> None
      | Some res \<Rightarrow>
     (case py_get (checks (snd res)) 0 of None \<Rightarrow> None
      | Some check_info \<Rightarrow>
     (case board_get (board (snd res)) (fst check_info) (fst (snd check_info)) of None \<Rightarrow> None
      | Some enemy_piece_applying_check \<Rightarrow>
     (case py_get enemy_piece_applying_check 1 of None \<Rightarrow> None
      | Some kind \<Rightarrow>
          (let valid_squares =
                 (if kind = CHR ''N'' then [(fst check_info, fst (snd check_info))]
                  else valid_squares_loop king_r king_c check_info (py_range 1 8) [])
           in case prune_moves (rev (py_range 0 (int (length (fst res))))) valid_squares
                     (fst res) of
                None \<Rightarrow> None
              | Some moves \<Rightarrow> Some (moves, snd res))))))"

text \<open>
  \<^verbatim>\<open>get_all_valid_moves(self)\<close>.  The \<^verbatim>\<open>print\<close> calls write the result line to the
  console and leave the state alone; they are left out.
\<close>

definition get_all_valid_moves :: "GameState \<Rightarrow> (Move list \<times> GameState) option" where
  "get_all_valid_moves s =
     (case search_for_pins_and_checks s of None \<Rightarrow> None
      | Some det \<Rightarrow>
          (let s1 = (snd det)\<lparr> current_player_is_in_check := fst (fst det),
                               pins := fst (snd (fst det)),
                               checks := snd (snd (fst det)) \<rparr>;
               king_r = (if white_to_move s1 then fst (white_king_location s1)
                         else fst (black_king_location s1));
               king_c = (if white_to_move s1 then snd (white_king_location s1)
                         else snd (black_king_location s1))
           in case (if current_player_is_in_check s1 then
                      (if length (checks s1) = 1 then single_check_moves king_r king_c s1
                       else get_king_moves king_r king_c [] s1)
                    else get_all_possible_moves s1) of
                None \<Rightarrow> None
              | Some res \<Rightarrow>
                  (let s2 = snd res;
                       s3 = (if length (fst res) = 0 then
                               (if current_player_is_in_check s2 then s2\<lparr>checkmate := True\<rparr>
                                else s2\<lparr>stalemate := True\<rparr>)
                             else s2\<lparr>checkmate := False, stalemate := False\<rparr>)
                   in case search_for_material_stalemate s3 of None \<Rightarrow> None
                      | Some st \<Rightarrow>
                          Some (if st then [] else fst res, s3\<lparr>stalemate := st\<rparr>))))"

section \<open>The driver's move validation\<close>

text \<open>
  One turn of the main loop of \<^verbatim>\<open>ChessMain.py\<close>: the legal moves of the position are
  computed, the two clicked squares are made into a \<^verbatim>\<open>Move\<close>, and every legal move
  that \<^verbatim>\<open>__eq__\<close> accepts is handed to \<^verbatim>\<open>make_move\<close>.  A click that matches no
  legal move changes nothing.  The console is closed here (\<open>None\<close>): the games below
  contain no promotion.
\<close>

fun make_matching :: "Move \<Rightarrow> Move list \<Rightarrow> GameState \<Rightarrow> GameState option" where
  "make_matching mv [] s = Some s"
| "make_matching mv (vmj # vs) s =
     (if Move_eq mv (MoveObj vmj)
      then (case make_move s vmj None of None \<Rightarrow> None
            | Some s' \<Rightarrow> make_matching mv vs s')
      else make_matching mv vs s)"

definition click_move :: "GameState \<Rightarrow> (int \<times> int) \<times> (int \<times> int) \<Rightarrow> GameState option" where
  "click_move s clicks =
     (case get_all_valid_moves s of None \<Rightarrow> None
      | Some res \<Rightarrow>
          (case Move_init (fst clicks) (snd clicks) (board (snd res)) False False False of
             None \<Rightarrow> None
           | Some mv \<Rightarrow> make_matching mv (fst res) (snd res)))"

fun play :: "GameState \<Rightarrow> ((int \<times> int) \<times> (int \<times> int)) list \<Rightarrow> GameState option" where
  "play s [] = Some s"
| "play s (clicks # rest) =
     (case click_move s clicks of None \<Rightarrow> None | Some s' \<Rightarrow> play s' rest)"

section \<open>Positions and games used below\<close>

text \<open>
  A move-count enumeration of depth two: every move of the list is made from the
  same position and the legal replies are counted.
\<close>

fun reply_counts :: "GameState \<Rightarrow> Move list \<Rightarrow> nat list option" where
  "reply_counts s [] = Some []"
| "reply_counts s (m # ms) =
     (case make_move s m None of None \<Rightarrow> None
      | Some s' \<Rightarrow>
     (case get_all_valid_moves s' of None \<Rightarrow> None
      | Some res \<Rightarrow>
     (case reply_counts s ms of None \<Rightarrow> None
      | Some ns \<Rightarrow> Some (length (fst res) # ns))))"

text \<open>
  King and pawn against king, Black to move: black king a8, white pawn a7, white
  king a6.  The black king has no square and is not attacked.
\<close>

definition stalemate_position :: GameState where
  "stalemate_position =
    \<lparr> board =
       [[''bK'', ''--'', ''--'', ''--'', ''--'', ''--'', ''--'', ''--''],
        [''wP'', ''--'', ''--'', ''--'', ''--'', ''--'', ''--'', ''--''],
        [''wK'', ''--'', ''--'', ''--'', ''--'', ''--'', ''--'', ''--''],
        [''--'', ''--'', ''--'', ''--'', ''--'', ''--'', ''--'', ''--''],
        [''--'', ''--'', ''--'', ''--'', ''--'', ''--'', ''--'', ''--''],
        [''--'', ''--'', ''--'', ''--'', ''--'', ''--'', ''--'', ''--''],
        [''--'', ''--'', ''--'', ''--'', ''--'', ''--'', ''--'', ''--''],
        [''--'', ''--'', ''--'', ''--'', ''--'', ''--'', ''--'', ''--'']],
      white_to_move = False,
      move_log = [],
      white_king_location = (2, 0),
      black_king_location = (0, 0),
      current_player_is_in_check = False,
      checks = [],
      pins = [],
      checkmate = False,
      stalemate = False,
      en_passant_possible = None,
      current_castling_rights = \<lparr> wks = False, bks = False, wqs = False, bqs = False \<rparr>,
      castling_rights_log = [\<lparr> wks = False, bks = False, wqs = False, bqs = False \<rparr>] \<rparr>"

text \<open>
  Three games from the initial position, as pairs of clicked squares (row, column).

  \<open>game_en_passant\<close>: 1. e4 a6 2. e5 d5, after which White may capture en passant
  on d6.

  \<open>game_castle_into_check\<close>: 1. g4 h5 2. gxh5 Rxh5 3. Nf3 Rg5 4. Bh3 a6; the black
  rook on g5 looks down the open g-file at g1.

  \<open>game_castle_through_check\<close>: 1. f4 h5 2. f5 Rh6 3. Nh3 e6 4. fxe6 Rf6 5. e3 a6
  6. Be2 a5; the black rook on f6 looks down the open f-file at f1.
\<close>

definition game_en_passant :: "((int \<times> int) \<times> (int \<times> int)) list" where
  "game_en_passant = [((6, 4), (4, 4)), ((1, 0), (2, 0)), ((4, 4), (3, 4)), ((1, 3), (3, 3))]"

definition game_castle_into_check :: "((int \<times> int) \<times> (int \<times> int)) list" where
  "game_castle_into_check =
     [((6, 6), (4, 6)), ((1, 7), (3, 7)), ((4, 6), (3, 7)), ((0, 7), (3, 7)),
      ((7, 6), (5, 5)), ((3, 7), (3, 6)), ((7, 5), (5, 7)), ((1, 0), (2, 0))]"

definition game_castle_through_check :: "((int \<times> int) \<times> (int \<times> int)) list" where
  "game_castle_through_check =
     [((6, 5), (4, 5)), ((1, 7), (3, 7)), ((4, 5), (3, 5)), ((0, 7), (2, 7)),
      ((7, 6), (5, 7)), ((1, 4), (2, 4)), ((3, 5), (2, 4)), ((2, 7), (2, 5)),
      ((6, 4), (5, 4)), ((1, 0), (2, 0)), ((7, 5), (6, 4)), ((2, 0), (3, 0))]"

section \<open>Well-formed squares and boards\<close>

text \<open>
  A square of the data model has both coordinates in 0..7.  The board of a game is
  eight rows of eight tokens, each token of at least two characters; \<^verbatim>\<open>__init__\<close>
  builds such a board and every write of the engine replaces one token by another
  of at least two characters.
\<close>

definition on_board :: "int \<times> int \<Rightarrow> bool" where
  "on_board sq = ((0 \<le> fst sq \<and> fst sq < 8) \<and> (0 \<le> snd sq \<and> snd sq < 8))"

definition wf_board :: "board_t \<Rightarrow> bool" where
  "wf_board b =
     (length b = 8 \<and> list_all (\<lambda>row. length row = 8 \<and> list_all (\<lambda>p. 2 \<le> length p) row) b)"

section \<open>Promotion\<close>

text \<open>
  A position with a white pawn on a7, White to move; a7-a8 promotes.
\<close>

definition promotion_position :: GameState where
  "promotion_position =
    \<lparr> board =
       [[''--'', ''--'', ''--'', ''--'', ''bK'', ''--'', ''--'', ''--''],
        [''wP'', ''--'', ''--'', ''--'', ''--'', ''--'', ''--'', ''--''],
        [''--'', ''--'', ''--'', ''--'', ''--'', ''--'', ''--'', ''--''],
        [''--'', ''--'', ''--'', ''--'', ''--'', ''--'', ''--'', ''--''],
        [''--'', ''--'', ''--'', ''--'', ''--'', ''--'', ''--'', ''--''],
        [''--'', ''--'', ''--'', ''--'', ''--'', ''--'', ''--'', ''--''],
        [''--'', ''--'', ''--'', ''--'', ''--'', ''--'', ''--'', ''--''],
        [''--'', ''--'', ''--'', ''--'', ''wK'', ''--'', ''--'', ''--'']],
      white_to_move = True,
      move_log = [],
      white_king_location = (7, 4),
      black_king_location = (0, 4),
      current_player_is_in_check = False,
      checks = [],
      pins = [],
      checkmate = False,
      stalemate = False,
      en_passant_possible = None,
      current_castling_rights = \<lparr> wks = False, bks = False, wqs = False, bqs = False \<rparr>,
      castling_rights_log = [\<lparr> wks = False, bks = False, wqs = False, bqs = False \<rparr>] \<rparr>"

text \<open>Every row has eight squares.\<close>

definition rows8 :: "board_t \<Rightarrow> bool" where
  "rows8 b = list_all (\<lambda>row. length row = 8) b"

section \<open>Non-king material\<close>

text \<open>
  The non-king material of a board: the squares, in scan order, whose token is
  neither empty nor a king, with their tokens.  \<open>token_at\<close> reads a square of a
  well-formed board.
\<close>

definition token_at :: "board_t \<Rightarrow> int \<times> int \<Rightarrow> string" where
  "token_at b sq = b ! nat (fst sq) ! nat (snd sq)"

definition kind_of :: "string \<Rightarrow> char" where
  "kind_of p = p ! 1"

definition colour_of :: "string \<Rightarrow> char" where
  "colour_of p = p ! 0"

definition is_material :: "string \<Rightarrow> bool" where
  "is_material p = (\<not> (kind_of p = CHR ''K'' \<or> p = ''--''))"

definition material_on :: "board_t \<Rightarrow> (int \<times> int) list \<Rightarrow> ((int \<times> int) \<times> string) list" where
  "material_on b sqs = filter (\<lambda>x. is_material (snd x)) (map (\<lambda>sq. (sq, token_at b sq)) sqs)"

definition material :: "board_t \<Rightarrow> ((int \<times> int) \<times> string) list" where
  "material b = material_on b all_squares"

definition square_parity :: "int \<times> int \<Rightarrow> int" where
  "square_parity sq = (fst sq + snd sq) mod 2"

definition is_bishop :: "string \<Rightarrow> bool" where
  "is_bishop p = (kind_of p = CHR ''B'')"

definition is_knight :: "string \<Rightarrow> bool" where
  "is_knight p = (kind_of p = CHR ''N'')"

text \<open>
  The draw condition in the words of the specification: the non-king material is
  empty, or a single knight or bishop, or two bishops of the same colour on squares
  of the same colour, or any number of bishops of both colours with no other piece,
  or knights only, all of one colour.
\<close>

definition spec_material_draw :: "((int \<times> int) \<times> string) list \<Rightarrow> bool" where
  "spec_material_draw mat =
     (mat = []
      \<or> (length mat = 1 \<and> list_all (\<lambda>x. is_knight (snd x) \<or> is_bishop (snd x)) mat)
      \<or> (length mat = 2 \<and> list_all (\<lambda>x. is_bishop (snd x)) mat
          \<and> (list_all (\<lambda>x. colour_of (snd x) = CHR ''w'') mat
              \<or> list_all (\<lambda>x. colour_of (snd x) = CHR ''b'') mat)
          \<and> list_all (\<lambda>x. square_parity (fst x) = square_parity (fst (hd mat))) mat)
      \<or> (list_all (\<lambda>x. is_bishop (snd x)) mat
          \<and> list_ex (\<lambda>x. colour_of (snd x) = CHR ''w'') mat
          \<and> list_ex (\<lambda>x. colour_of (snd x) = CHR ''b'') mat)
      \<or> (list_all (\<lambda>x. is_knight (snd x)) mat
          \<and> (list_all (\<lambda>x. colour_of (snd x) = CHR ''w'') mat
              \<or> list_all (\<lambda>x. colour_of (snd x) = CHR ''b'') mat)))"

text \<open>
  The draw condition as amended: at most two pieces are ever accepted.
\<close>

definition amended_material_draw :: "((int \<times> int) \<times> string) list \<Rightarrow> bool" where
  "amended_material_draw mat =
     (case mat of
        [] \<Rightarrow> True
      | [x] \<Rightarrow> is_knight (snd x) \<or> is_bishop (snd x)
      | [x, y] \<Rightarrow>
          (snd x = snd y \<and> (snd x = ''wB'' \<or> snd x = ''bB'')
             \<and> square_parity (fst x) = square_parity (fst y))
          \<or> (is_bishop (snd x) \<and> is_bishop (snd y)
              \<and> ((colour_of (snd x) = CHR ''w'' \<and> colour_of (snd y) = CHR ''b'')
                  \<or> (colour_of (snd x) = CHR ''b'' \<and> colour_of (snd y) = CHR ''w'')))
          \<or> (snd x = snd y \<and> (snd x = ''wN'' \<or> snd x = ''bN''))
      | _ \<Rightarrow> False)"

text \<open>
  The scan for bishop parities, run on the list of the squares that hold a bishop.
\<close>

fun parities_of :: "(int \<times> int) list \<Rightarrow> int \<times> bool \<times> int \<Rightarrow> int \<times> bool \<times> int" where
  "parities_of [] acc = acc"
| "parities_of (sq # sqs) acc =
     (if \<not> fst (snd acc) then parities_of sqs (fst sq + snd sq, True, snd (snd acc))
      else parities_of sqs (fst acc, fst (snd acc), fst sq + snd sq))"

text \<open>
  Two white bishops and a black bishop with the two kings; a white bishop with the
  two kings.
\<close>

definition three_bishops_position :: GameState where
  "three_bishops_position =
    \<lparr> board =
       [[''--'', ''--'', ''bB'', ''--'', ''bK'', ''--'', ''--'', ''--''],
        [''--'', ''--'', ''--'', ''--'', ''--'', ''--'', ''--'', ''--''],
        [''--'', ''--'', ''--'', ''--'', ''--'', ''--'', ''--'', ''--''],
        [''--'', ''--'', ''--'', ''--'', ''--'', ''--'', ''--'', ''--''],
        [''--'', ''--'', ''--'', ''--'', ''--'', ''--'', ''--'', ''--''],
        [''--'', ''--'', ''--'', ''--'', ''--'', ''--'', ''--'', ''--''],
        [''--'', ''--'', ''--'', ''--'', ''--'', ''--'', ''--'', ''--''],
        [''--'', ''--'', ''wB'', ''--'', ''wK'', ''wB'', ''--'', ''--'']],
      white_to_move = True,
      move_log = [],
      white_king_location = (7, 4),
      black_king_location = (0, 4),
      current_player_is_in_check = False,
      checks = [],
      pins = [],
      checkmate = False,
      stalemate = False,
      en_passant_possible = None,
      current_castling_rights = \<lparr> wks = False, bks = False, wqs = False, bqs = False \<rparr>,
      castling_rights_log = [\<lparr> wks = False, bks = False, wqs = False, bqs = False \<rparr>] \<rparr>"

definition bishop_draw_position :: GameState where
  "bishop_draw_position =
    \<lparr> board =
       [[''--'', ''--'', ''--'', ''--'', ''bK'', ''--'', ''--'', ''--''],
        [''--'', ''--'', ''--'', ''--'', ''--'', ''--'', ''--'', ''--''],
        [''--'', ''--'', ''--'', ''--'', ''--'', ''--'', ''--'', ''--''],
        [''--'', ''--'', ''--'', ''--'', ''--'', ''--'', ''--'', ''--''],
        [''--'', ''--'', ''--'', ''--'', ''--'', ''--'', ''--'', ''--''],
        [''--'', ''--'', ''--'', ''--'', ''--'', ''--'', ''--'', ''--''],
        [''--'', ''--'', ''--'', ''--'', ''--'', ''--'', ''--'', ''--''],
        [''--'', ''--'', ''wB'', ''--'', ''wK'', ''--'', ''--'', ''--'']],
      white_to_move = True,
      move_log = [],
      white_king_location = (7, 4),
      black_king_location = (0, 4),
      current_player_is_in_check = False,
      checks = [],
      pins = [],
      checkmate = False,
      stalemate = False,
      en_passant_possible = None,
      current_castling_rights = \<lparr> wks = False, bks = False, wqs = False, bqs = False \<rparr>,
      castling_rights_log = [\<lparr> wks = False, bks = False, wqs = False, bqs = False \<rparr>] \<rparr>"

section \<open>Invariants of move generation\<close>

text \<open>
  Predicates for stating when \<^verbatim>\<open>get_all_valid_moves\<close> returns.  No castling right
  is left (in a game, the case as soon as no rook stands on its home square).
\<close>

definition no_castling_rights :: "GameState \<Rightarrow> bool" where
  "no_castling_rights s =
     (\<not> wks (current_castling_rights s) \<and> \<not> bks (current_castling_rights s)
      \<and> \<not> wqs (current_castling_rights s) \<and> \<not> bqs (current_castling_rights s))"

text \<open>Every move of the list has a token of at least two characters.\<close>

definition good_moves :: "Move list \<Rightarrow> bool" where
  "good_moves ms = list_all (\<lambda>m. 2 \<le> length (piece_moved m)) ms"

text \<open>
  The fields no generator changes: the board, the side to move, the castling
  rights and the list of checks.
\<close>

definition gen_frame :: "GameState \<Rightarrow> GameState \<Rightarrow> bool" where
  "gen_frame s s' =
     (board s' = board s \<and> white_to_move s' = white_to_move s
      \<and> current_castling_rights s' = current_castling_rights s \<and> checks s' = checks s)"

text \<open>Every square is empty or holds a king, a knight or a bishop.\<close>

definition minor_pieces_only :: "board_t \<Rightarrow> bool" where
  "minor_pieces_only b =
     list_all (\<lambda>sq. token_at b sq = ''--'' \<or> kind_of (token_at b sq) = CHR ''K''
                   \<or> kind_of (token_at b sq) = CHR ''N'' \<or> kind_of (token_at b sq) = CHR ''B'')
       all_squares"

text \<open>Every recorded check names a square of the board.\<close>

definition checks_on_board :: "ray_t list \<Rightarrow> bool" where
  "checks_on_board cs = list_all (\<lambda>ch. on_board (fst ch, fst (snd ch))) cs"

section \<open>Undo on an empty history\<close>

text \<open>
  C9.  Calling \<^verbatim>\<open>undo_move\<close> on a position whose move log is empty raises nothing
  and returns the position with every component unchanged.
\<close>

theorem undo_move_empty_log_noop:
  "move_log s = [] \<Longrightarrow> undo_move s = Some s"
  by (simp add: undo_move_def)

theorem undo_move_empty_log_noop_witness:
  "move_log new_game = [] \<and> undo_move new_game = Some new_game"
  using undo_move_empty_log_noop [of new_game] by (simp add: new_game_def)

section \<open>Make and undo\<close>

text \<open>
  C1.  The claim: making a legal move and undoing it restores the position, the
  en-passant target included.  The code does not: after 1. e4 a6 2. e5 d5 the
  target is d6 \<open>(2, 3)\<close> and the capture on d6 is among the 31 legal moves; making
  the legal move Ng1-f3 and undoing it gives back the board, but the target is
  \<^verbatim>\<open>()\<close>, and the capture is no longer among the (now 30) legal moves.
\<close>

theorem undo_move_loses_en_passant_target:
  "(case play new_game game_en_passant of None \<Rightarrow> False
    | Some p0 \<Rightarrow>
    (case get_all_valid_moves p0 of None \<Rightarrow> False
     | Some res \<Rightarrow>
        en_passant_possible (snd res) = Some (2, 3)
        \<and> list_ex is_en_passant (fst res) \<and> length (fst res) = 31
        \<and> (case find (\<lambda>m. move_id m = 7655) (fst res) of None \<Rightarrow> False
           | Some m \<Rightarrow>
          (case make_move (snd res) m None of None \<Rightarrow> False
           | Some q \<Rightarrow>
          (case undo_move q of None \<Rightarrow> False
           | Some p' \<Rightarrow>
               board p' = board (snd res)
               \<and> white_to_move p' = white_to_move (snd res)
               \<and> white_king_location p' = white_king_location (snd res)
               \<and> black_king_location p' = black_king_location (snd res)
               \<and> current_castling_rights p' = current_castling_rights (snd res)
               \<and> move_log p' = move_log (snd res)
               \<and> en_passant_possible p' = None
               \<and> (case get_all_valid_moves p' of None \<Rightarrow> False
                  | Some res' \<Rightarrow>
                      \<not> list_ex is_en_passant (fst res') \<and> length (fst res') = 30))))))"
  by code_simp

section \<open>Castling\<close>

text \<open>
  C2.  The claim: no castling move is generated while a square the king crosses is
  attacked.  The code tests \<^verbatim>\<open>not (A and B)\<close>, so it refuses only when both squares
  are attacked: in the position reached by \<open>game_castle_through_check\<close> (twelve
  legal moves from the start) f1 is attacked by the rook on f6, g1 is not, and the
  king-side castling move e1-g1 is generated and is among the legal moves.
\<close>

theorem castling_through_attacked_square:
  "(case play new_game game_castle_through_check of None \<Rightarrow> False
    | Some s \<Rightarrow>
        length (move_log s) = 12 \<and> white_to_move s
        \<and> board_get (board s) 2 5 = Some ''bR''
        \<and> map (\<lambda>r. board_get (board s) r 5) [3, 4, 5, 6, 7]
            = [Some ''--'', Some ''--'', Some ''--'', Some ''--'', Some ''--'']
        \<and> search_for_attacks s 7 4 (CHR ''b'') = Some False
        \<and> search_for_attacks s 7 5 (CHR ''b'') = Some True
        \<and> search_for_attacks s 7 6 (CHR ''b'') = Some False
        \<and> map_option (map (\<lambda>m. (move_id m, is_castling m)))
             (get_king_side_castling_moves 7 4 [] s) = Some [(7476, True)]
        \<and> (case get_all_valid_moves s of None \<Rightarrow> False
           | Some res \<Rightarrow> list_ex (\<lambda>m. is_castling m \<and> move_id m = 7476) (fst res)))"
  by code_simp

text \<open>
  C6.  The claim: no move returned by \<^verbatim>\<open>get_all_valid_moves\<close> leaves the mover's
  king attacked.  In the position reached by \<open>game_castle_into_check\<close> (eight legal
  moves from the start) the list contains the castling move e1-g1 although the rook
  on g5 attacks g1 along the empty g-file; after \<^verbatim>\<open>make_move\<close> the white king stands
  on g1 and is attacked.
\<close>

theorem castling_into_check:
  "(case play new_game game_castle_into_check of None \<Rightarrow> False
    | Some s \<Rightarrow>
        length (move_log s) = 8 \<and> white_to_move s
        \<and> (case get_all_valid_moves s of None \<Rightarrow> False
           | Some res \<Rightarrow>
          (case find is_castling (fst res) of None \<Rightarrow> False
           | Some m \<Rightarrow>
               (start_r m, start_c m, end_r m, end_c m) = (7, 4, 7, 6)
               \<and> (case make_move (snd res) m None of None \<Rightarrow> False
                  | Some s' \<Rightarrow>
                      white_king_location s' = (7, 6)
                      \<and> board_get (board s') 7 6 = Some ''wK''
                      \<and> board_get (board s') 3 6 = Some ''bR''
                      \<and> map (\<lambda>r. board_get (board s') r 6) [4, 5, 6]
                          = [Some ''--'', Some ''--'', Some ''--'']
                      \<and> search_for_attacks s' 7 6 (CHR ''b'') = Some True))))"
  by code_simp

section \<open>Terminal flags\<close>

text \<open>
  C4.  The claim: an empty legal-move list with the side to move not in check sets
  the stalemate flag.  The code sets it and then overwrites it with the result of
  the material classifier: in \<open>stalemate_position\<close> the list is empty, the side to
  move is not in check, the classifier (one pawn) answers no, and the flag is false
  when \<^verbatim>\<open>get_all_valid_moves\<close> returns.
\<close>

theorem stalemate_flag_overwritten:
  "(case get_all_valid_moves stalemate_position of None \<Rightarrow> False
    | Some res \<Rightarrow>
        fst res = [] \<and> current_player_is_in_check (snd res) = False
        \<and> stalemate (snd res) = False \<and> checkmate (snd res) = False)
   \<and> search_for_material_stalemate stalemate_position = Some False"
  by code_simp

text \<open>
  The checkmate flag is not overwritten: after 1. f3 e5 2. g4 Qh4 the list is empty,
  White is in check and the checkmate flag is set.
\<close>

lemma fools_mate_checkmate_flag:
  "(case play new_game [((6, 5), (5, 5)), ((1, 4), (3, 4)), ((6, 6), (4, 6)), ((0, 3), (4, 7))] of
      None \<Rightarrow> False
    | Some s \<Rightarrow>
        length (move_log s) = 4 \<and> white_to_move s
        \<and> (case get_all_valid_moves s of None \<Rightarrow> False
           | Some res \<Rightarrow>
               fst res = [] \<and> current_player_is_in_check (snd res) \<and> checkmate (snd res)))"
  by code_simp

section \<open>Move counts from the initial position\<close>

text \<open>
  C7.  From the initial position \<^verbatim>\<open>get_all_valid_moves\<close> returns 20 moves, and the
  reply lists of these 20 moves have 400 moves in all.
\<close>

theorem perft_initial_20_400:
  "(case get_all_valid_moves new_game of None \<Rightarrow> False
    | Some res \<Rightarrow>
        length (fst res) = 20
        \<and> (case reply_counts (snd res) (fst res) of None \<Rightarrow> False
           | Some ns \<Rightarrow> length ns = 20 \<and> sum_list ns = 400))"
  by code_simp

section \<open>Equality of moves\<close>

lemma Move_init_id:
  "Move_init a e b p q c = Some m \<Longrightarrow>
     start_r m = fst a \<and> start_c m = snd a \<and> end_r m = fst e \<and> end_c m = snd e
     \<and> move_id m = fst a * 1000 + snd a * 100 + fst e * 10 + snd e"
  by (auto simp: Move_init_def split: option.splits)

lemma id_digits:
  fixes a b c d a' b' c' d' :: int
  assumes "0 \<le> a" "a < 8" "0 \<le> b" "b < 8" "0 \<le> c" "c < 8" "0 \<le> d" "d < 8"
    "0 \<le> a'" "a' < 8" "0 \<le> b'" "b' < 8" "0 \<le> c'" "c' < 8" "0 \<le> d'" "d' < 8"
  shows "(a * 1000 + b * 100 + c * 10 + d = a' * 1000 + b' * 100 + c' * 10 + d')
          \<longleftrightarrow> (a = a' \<and> b = b' \<and> c = c' \<and> d = d')"
proof
  assume eq: "a * 1000 + b * 100 + c * 10 + d = a' * 1000 + b' * 100 + c' * 10 + d'"
  have a: "a = a'" using assms eq by linarith
  have b: "b = b'" using assms eq a by linarith
  have c: "c = c'" using assms eq a b by linarith
  show "a = a' \<and> b = b' \<and> c = c' \<and> d = d'" using eq a b c by simp
qed simp

text \<open>
  C8.  Two moves built on squares of the board are equal for \<^verbatim>\<open>__eq__\<close> exactly when
  their four coordinates are equal; the tokens and the three flags play no part (the
  promotion choice is not a field of a move at all: \<^verbatim>\<open>make_move\<close> reads it later).
\<close>

theorem Move_eq_iff_coordinates:
  assumes "Move_init a1 e1 b1 p1 q1 c1 = Some m1"
    and "Move_init a2 e2 b2 p2 q2 c2 = Some m2"
    and "on_board a1" "on_board e1" "on_board a2" "on_board e2"
  shows "Move_eq m1 (MoveObj m2) \<longleftrightarrow>
           (start_r m1 = start_r m2 \<and> start_c m1 = start_c m2
            \<and> end_r m1 = end_r m2 \<and> end_c m1 = end_c m2)"
proof -
  note i1 = Move_init_id [OF assms(1)] and i2 = Move_init_id [OF assms(2)]
  have "(move_id m1 = move_id m2) \<longleftrightarrow>
          (fst a1 = fst a2 \<and> snd a1 = snd a2 \<and> fst e1 = fst e2 \<and> snd e1 = snd e2)"
    using assms(3-6) i1 i2 id_digits [of "fst a1" "snd a1" "fst e1" "snd e1" "fst a2" "snd a2" "fst e2" "snd e2"]
    by (simp add: on_board_def)
  then show ?thesis using i1 i2 by simp
qed

theorem Move_eq_iff_coordinates_witness:
  "(\<exists>m1 m2. Move_init (6, 4) (4, 4) initial_board True False False = Some m1
      \<and> Move_init (6, 4) (4, 4) initial_board False False False = Some m2
      \<and> m1 \<noteq> m2 \<and> Move_eq m1 (MoveObj m2))
   \<and> (\<exists>m1 m2. Move_init (6, 4) (4, 4) initial_board False False False = Some m1
      \<and> Move_init (6, 4) (5, 4) initial_board False False False = Some m2
      \<and> \<not> Move_eq m1 (MoveObj m2))"
proof -
  obtain m1 where m1: "Move_init (6, 4) (4, 4) initial_board True False False = Some m1"
    by (simp add: Move_init_def board_get_def py_get_def py_norm_def initial_board_def)
  obtain m2 where m2: "Move_init (6, 4) (4, 4) initial_board False False False = Some m2"
    by (simp add: Move_init_def board_get_def py_get_def py_norm_def initial_board_def)
  obtain m3 where m3: "Move_init (6, 4) (5, 4) initial_board False False False = Some m3"
    by (simp add: Move_init_def board_get_def py_get_def py_norm_def initial_board_def)
  have ob: "on_board (6, 4)" "on_board (4, 4)" "on_board (5, 4)" by (simp_all add: on_board_def)
  have ne: "m1 \<noteq> m2" using m1 m2
    by (auto simp: Move_init_def split: option.splits)
  have "Move_eq m1 (MoveObj m2)"
    using Move_eq_iff_coordinates [OF m1 m2 ob(1) ob(2) ob(1) ob(2)] Move_init_id [OF m1] Move_init_id [OF m2]
    by simp
  moreover have "\<not> Move_eq m2 (MoveObj m3)"
    using Move_eq_iff_coordinates [OF m2 m3 ob(1) ob(2) ob(1) ob(3)] Move_init_id [OF m2] Move_init_id [OF m3]
    by simp
  ultimately show ?thesis using m1 m2 m3 ne by blast
qed

text \<open>
  Equal squares give equal moves whatever the squares are, since the identifier is
  computed from the coordinates alone.
\<close>

lemma Move_eq_same_squares:
  assumes "Move_init a e b1 p1 q1 c1 = Some m1" and "Move_init a e b2 p2 q2 c2 = Some m2"
  shows "Move_eq m1 (MoveObj m2)"
  using Move_init_id [OF assms(1)] Move_init_id [OF assms(2)] by simp

text \<open>
  Outside the board the identifier is no longer injective: Python accepts the column
  \<open>-8\<close> as column 0, and the two moves below share the identifier 2.
\<close>

lemma Move_eq_off_board_collision:
  "(case (Move_init (0, 0) (1, - 8) initial_board False False False,
          Move_init (0, 0) (0, 2) initial_board False False False) of
      (Some m1, Some m2) \<Rightarrow> Move_eq m1 (MoveObj m2) \<and> end_r m1 \<noteq> end_r m2
    | _ \<Rightarrow> False)"
  by code_simp

section \<open>The detector assigns no field\<close>

lemma py_get_in_range: "0 \<le> i \<Longrightarrow> i < int (length xs) \<Longrightarrow> py_get xs i = Some (xs ! nat i)"
  by (simp add: py_get_def py_norm_def)

lemma wf_board_row:
  "wf_board b \<Longrightarrow> 0 \<le> r \<Longrightarrow> r < 8 \<Longrightarrow>
     py_get b r = Some (b ! nat r) \<and> length (b ! nat r) = 8
     \<and> list_all (\<lambda>p. 2 \<le> length p) (b ! nat r)"
  by (simp add: wf_board_def py_get_in_range list_all_length)

lemma board_get_wf:
  assumes "wf_board b" "0 \<le> r" "r < 8" "0 \<le> c" "c < 8"
  shows "board_get b r c = Some (b ! nat r ! nat c) \<and> 2 \<le> length (b ! nat r ! nat c)"
  using wf_board_row [OF assms(1-3)] assms(4,5)
  by (simp add: board_get_def py_get_in_range list_all_length)

lemma token_chars:
  "2 \<le> length p \<Longrightarrow> py_get p 0 = Some (p ! 0) \<and> py_get p 1 = Some (p ! 1)"
  by (auto simp: py_get_def py_norm_def)

lemma pin_ray_total:
  "wf_board b \<Longrightarrow> pin_ray b ally enemy king_r king_c j d ds pp (x, y, z) \<noteq> None"
proof (induction ds arbitrary: pp x y z)
  case Nil
  then show ?case by simp
next
  case (Cons dist ds)
  let ?r = "king_r + fst d * dist" and ?c = "king_c + snd d * dist"
  show ?case
  proof (cases "(0 \<le> ?r \<and> ?r < 8) \<and> (0 \<le> ?c \<and> ?c < 8)")
    case False
    then show ?thesis by (auto simp: Let_def)
  next
    case True
    then have g: "board_get b ?r ?c = Some (b ! nat ?r ! nat ?c)" "2 \<le> length (b ! nat ?r ! nat ?c)"
      using board_get_wf [OF Cons.prems, of ?r ?c] by simp_all
    note t = token_chars [OF g(2)]
    show ?thesis
      using True Cons.IH [OF Cons.prems]
      by (auto simp: Let_def g(1) t split: option.splits)
  qed
qed

lemma pin_dirs_total:
  "wf_board b \<Longrightarrow> pin_dirs b ally enemy king_r king_c jds acc \<noteq> None"
proof (induction jds arbitrary: acc)
  case Nil
  then show ?case by simp
next
  case (Cons jd jds)
  have "pin_ray b ally enemy king_r king_c (fst jd) (snd jd) (py_range 1 8) None acc \<noteq> None"
    using pin_ray_total [OF Cons.prems, of ally enemy king_r king_c "fst jd" "snd jd" "py_range 1 8" None
        "fst acc" "fst (snd acc)" "snd (snd acc)"] by simp
  then obtain acc1 where "pin_ray b ally enemy king_r king_c (fst jd) (snd jd) (py_range 1 8) None acc = Some acc1"
    by blast
  then show ?case using Cons.IH [OF Cons.prems] by (simp del: not_None_eq)
qed

lemma knight_checks_total:
  "wf_board b \<Longrightarrow> knight_checks b enemy king_r king_c ds (x, y) \<noteq> None"
proof (induction ds arbitrary: x y)
  case Nil
  then show ?case by simp
next
  case (Cons d ds)
  let ?r = "king_r + fst d" and ?c = "king_c + snd d"
  show ?case
  proof (cases "(0 \<le> ?r \<and> ?r < 8) \<and> (0 \<le> ?c \<and> ?c < 8)")
    case False
    then show ?thesis using Cons.IH [OF Cons.prems] by (auto simp: Let_def)
  next
    case True
    then have g: "board_get b ?r ?c = Some (b ! nat ?r ! nat ?c)" "2 \<le> length (b ! nat ?r ! nat ?c)"
      using board_get_wf [OF Cons.prems, of ?r ?c] by simp_all
    note t = token_chars [OF g(2)]
    show ?thesis
      using True Cons.IH [OF Cons.prems]
      by (simp add: Let_def g(1) t del: not_None_eq)
  qed
qed

lemma search_for_pins_and_checks_total:
  assumes "wf_board (board s)"
  shows "\<exists>res. search_for_pins_and_checks s = Some (res, s)"
proof -
  let ?e = "if white_to_move s then CHR ''b'' else CHR ''w''"
  let ?a = "if white_to_move s then CHR ''w'' else CHR ''b''"
  let ?r = "if white_to_move s then fst (white_king_location s) else fst (black_king_location s)"
  let ?c = "if white_to_move s then snd (white_king_location s) else snd (black_king_location s)"
  have "pin_dirs (board s) ?a ?e ?r ?c indexed_king_dirs (False, [], []) \<noteq> None"
    by (rule pin_dirs_total [OF assms])
  then obtain acc where a: "pin_dirs (board s) ?a ?e ?r ?c indexed_king_dirs (False, [], []) = Some acc"
    by blast
  have "knight_checks (board s) ?e ?r ?c knight_dirs (fst acc, snd (snd acc)) \<noteq> None"
    by (rule knight_checks_total [OF assms])
  then obtain kacc where k: "knight_checks (board s) ?e ?r ?c knight_dirs (fst acc, snd (snd acc)) = Some kacc"
    by blast
  show ?thesis
    unfolding search_for_pins_and_checks_def Let_def using a k by simp
qed

text \<open>
  C10.  On every well-formed board \<^verbatim>\<open>search_for_pins_and_checks\<close> returns its triple
  and the state it was called on, every field unchanged.
\<close>

theorem search_for_pins_and_checks_frame:
  "wf_board (board s) \<Longrightarrow>
     \<exists>in_check pin_list check_list.
        search_for_pins_and_checks s = Some ((in_check, pin_list, check_list), s)"
  using search_for_pins_and_checks_total [of s] by (metis prod_cases3)

lemma wf_initial_board: "wf_board initial_board"
  by (simp add: wf_board_def initial_board_def)

theorem search_for_pins_and_checks_frame_witness:
  "wf_board (board new_game)
   \<and> search_for_pins_and_checks new_game = Some ((False, [], []), new_game)"
proof -
  have w: "wf_board (board new_game)" using wf_initial_board by (simp add: new_game_def)
  obtain a b c where r: "search_for_pins_and_checks new_game = Some ((a, b, c), new_game)"
    using search_for_pins_and_checks_frame [OF w] by blast
  have "map_option fst (search_for_pins_and_checks new_game) = Some (False, [], [])"
    by code_simp
  with r w show ?thesis by simp
qed

section \<open>Promotion reads the console\<close>

lemma py_norm_less: "py_norm n i = Some k \<Longrightarrow> k < n"
  by (auto simp: py_norm_def split: if_splits)

lemma py_set_SomeD:
  "py_set xs i v = Some ys \<Longrightarrow>
     \<exists>k. py_norm (length xs) i = Some k \<and> k < length xs \<and> ys = xs[k := v]"
  by (auto simp: py_set_def split: option.splits intro: py_norm_less)

lemma py_get_SomeD:
  "py_get xs i = Some x \<Longrightarrow> \<exists>k. py_norm (length xs) i = Some k \<and> k < length xs \<and> x = xs ! k"
  by (auto simp: py_get_def split: option.splits intro: py_norm_less)

lemma board_set_SomeD:
  assumes "board_set b r c v = Some b'"
  shows "\<exists>kr kc. py_norm (length b) r = Some kr \<and> kr < length b
           \<and> py_norm (length (b ! kr)) c = Some kc \<and> kc < length (b ! kr)
           \<and> b' = b[kr := (b ! kr)[kc := v]]"
proof -
  obtain row row' where g: "py_get b r = Some row" and s: "py_set row c v = Some row'"
    and s': "py_set b r row' = Some b'"
    using assms by (auto simp: board_set_def split: option.splits)
  from py_get_SomeD [OF g] obtain kr where kr: "py_norm (length b) r = Some kr" "kr < length b" "row = b ! kr"
    by blast
  from py_set_SomeD [OF s] obtain kc where kc: "py_norm (length row) c = Some kc" "kc < length row" "row' = row[kc := v]"
    by blast
  from py_set_SomeD [OF s'] kr(1) have "b' = b[kr := row']" by auto
  with kr kc show ?thesis by auto
qed

lemma py_set_length: "py_set xs i v = Some ys \<Longrightarrow> length ys = length xs"
  by (auto simp: py_set_def split: option.splits)

lemma board_set_get_same:
  assumes "board_set b r c v = Some b'"
  shows "board_get b' r c = Some v"
proof -
  from board_set_SomeD [OF assms] obtain kr kc where
    k: "py_norm (length b) r = Some kr" "kr < length b"
       "py_norm (length (b ! kr)) c = Some kc" "kc < length (b ! kr)"
       "b' = b[kr := (b ! kr)[kc := v]]"
    by blast
  then show ?thesis by (simp add: board_get_def py_get_def)
qed

lemma rows8_board_set:
  assumes "rows8 b" "board_set b r c v = Some b'"
  shows "rows8 b'"
proof -
  from board_set_SomeD [OF assms(2)] obtain kr kc where
    k: "kr < length b" "b' = b[kr := (b ! kr)[kc := v]]"
    by blast
  then show ?thesis using assms(1)
    by (auto simp: rows8_def list_all_length nth_list_update)
qed

lemma board_set_get_other_column:
  assumes "rows8 b" "board_set b r c1 v = Some b'" "py_norm 8 c1 \<noteq> py_norm 8 c"
  shows "board_get b' r c = board_get b r c"
proof -
  from board_set_SomeD [OF assms(2)] obtain kr k1 where
    kr: "py_norm (length b) r = Some kr" and krl: "kr < length b"
    and k1': "py_norm (length (b ! kr)) c1 = Some k1"
    and b': "b' = b[kr := (b ! kr)[k1 := v]]"
    by blast
  have len: "length (b ! kr) = 8" using assms(1) krl by (simp add: rows8_def list_all_length)
  have k1: "py_norm 8 c1 = Some k1" using k1' len by simp
  show ?thesis
  proof (cases "py_norm 8 c")
    case None
    then show ?thesis using kr krl len b' by (simp add: board_get_def py_get_def)
  next
    case (Some k)
    then have "k \<noteq> k1" using assms(3) k1 by simp
    then show ?thesis using kr krl len b' Some by (simp add: board_get_def py_get_def)
  qed
qed

lemma py_norm_shift:
  "d \<in> {1, - 1, 2, - 2} \<Longrightarrow> py_norm 8 (c + d) \<noteq> None \<Longrightarrow> py_norm 8 (c + d) \<noteq> py_norm 8 c"
  by (auto simp: py_norm_def split: if_splits)

lemma move_rook_keeps:
  assumes "rows8 b" "move_rook b r c_to c_from = Some b'"
    "c_to - c \<in> {1, - 1, 2, - 2}" "c_from - c \<in> {1, - 1, 2, - 2}"
  shows "board_get b' r c = board_get b r c"
proof -
  obtain rook b1 where g: "board_get b r c_from = Some rook"
    and s1: "board_set b r c_to rook = Some b1" and s2: "board_set b1 r c_from ''--'' = Some b'"
    using assms(2) by (auto simp: move_rook_def split: option.splits)
  have r1: "rows8 b1" using rows8_board_set [OF assms(1) s1] .
  from board_set_SomeD [OF s1] obtain kr k1 where
    kr: "py_norm (length b) r = Some kr" and krl: "kr < length b"
    and k1: "py_norm (length (b ! kr)) c_to = Some k1"
    by blast
  have len: "length (b ! kr) = 8"
    using assms(1) krl by (simp add: rows8_def list_all_length)
  have n1: "py_norm 8 c_to \<noteq> None" using k1 len by simp
  have n2: "py_norm 8 c_from \<noteq> None"
    using g kr len by (auto simp: board_get_def py_get_def split: option.splits)
  have d1: "py_norm 8 c_to \<noteq> py_norm 8 c"
    using py_norm_shift [of "c_to - c" c] assms(3) n1 by simp
  have d2: "py_norm 8 c_from \<noteq> py_norm 8 c"
    using py_norm_shift [of "c_from - c" c] assms(4) n2 by simp
  show ?thesis
    using board_set_get_other_column [OF assms(1) s1 d1]
      board_set_get_other_column [OF r1 s2 d2] by simp
qed

lemma wf_board_rows8: "wf_board b \<Longrightarrow> length b = 8 \<and> rows8 b"
  by (auto simp: wf_board_def rows8_def list_all_iff)

lemma board_set_length: "board_set b r c v = Some b' \<Longrightarrow> length b' = length b"
  by (auto dest: board_set_SomeD)

lemma board_set_on_board:
  assumes "length b = 8" "rows8 b" "on_board (r, c)"
  shows "board_set b r c v \<noteq> None"
proof -
  have r: "py_get b r = Some (b ! nat r)"
    using assms(1,3) by (simp add: py_get_def py_norm_def on_board_def)
  have "nat r < length b" using assms(1,3) by (auto simp: on_board_def)
  then have "length (b ! nat r) = 8"
    using assms(2) by (simp add: rows8_def list_all_length)
  then have c: "py_set (b ! nat r) c v = Some ((b ! nat r)[nat c := v])"
    using assms(3) by (simp add: py_set_def py_norm_def on_board_def)
  have "py_set b r ((b ! nat r)[nat c := v]) \<noteq> None"
    using assms(1,3) by (simp add: py_set_def py_norm_def on_board_def)
  then show ?thesis using r c by (simp add: board_set_def)
qed

lemma board_update_castling_rights: "board (update_castling_rights s m) = board s"
  by (simp add: update_castling_rights_def Let_def)

lemma make_move_SomeD:
  assumes "make_move s m console = Some s'"
  shows "\<exists>b1 b2 kind b3 b4.
           board_set (board s) (start_r m) (start_c m) ''--'' = Some b1
           \<and> board_set b1 (end_r m) (end_c m) (piece_moved m) = Some b2
           \<and> py_get (piece_moved m) 1 = Some kind
           \<and> (if is_en_passant m then board_set b2 (start_r m) (end_c m) ''--'' else Some b2) = Some b3
           \<and> (if is_pawn_promotion m then
                 (case console of None \<Rightarrow> None
                  | Some p \<Rightarrow>
                      (case py_get (piece_moved m) 0 of None \<Rightarrow> None
                       | Some colour \<Rightarrow>
                           board_set b3 (end_r m) (end_c m)
                             (colour # (if p = [] then ''Q'' else p))))
               else Some b3) = Some b4
           \<and> (if is_castling m then
                 (if end_c m - start_c m = 2
                  then move_rook b4 (end_r m) (end_c m - 1) (end_c m + 1)
                  else move_rook b4 (end_r m) (end_c m + 1) (end_c m - 2))
               else Some b4) = Some (board s')"
proof -
  note mk = assms [unfolded make_move_def]
  obtain b1 where s1: "board_set (board s) (start_r m) (start_c m) ''--'' = Some b1"
    using mk by (cases "board_set (board s) (start_r m) (start_c m) ''--''") simp_all
  obtain b2 where s2: "board_set b1 (end_r m) (end_c m) (piece_moved m) = Some b2"
    using mk s1 by (cases "board_set b1 (end_r m) (end_c m) (piece_moved m)") simp_all
  obtain kind where s3: "py_get (piece_moved m) 1 = Some kind"
    using mk s1 s2 by (cases "py_get (piece_moved m) 1") simp_all
  let ?e3 = "if is_en_passant m then board_set b2 (start_r m) (end_c m) ''--'' else Some b2"
  obtain b3 where s4: "?e3 = Some b3"
    using mk s1 s2 s3 by (cases ?e3) simp_all
  let ?e4 = "if is_pawn_promotion m then
                 (case console of None \<Rightarrow> None
                  | Some p \<Rightarrow>
                      (case py_get (piece_moved m) 0 of None \<Rightarrow> None
                       | Some colour \<Rightarrow>
                           board_set b3 (end_r m) (end_c m)
                             (colour # (if p = [] then ''Q'' else p))))
               else Some b3"
  obtain b4 where s5: "?e4 = Some b4"
    using mk s1 s2 s3 s4 by (cases ?e4) simp_all
  let ?e5 = "if is_castling m then
                 (if end_c m - start_c m = 2
                  then move_rook b4 (end_r m) (end_c m - 1) (end_c m + 1)
                  else move_rook b4 (end_r m) (end_c m + 1) (end_c m - 2))
               else Some b4"
  obtain b5 where s6: "?e5 = Some b5"
    using mk s1 s2 s3 s4 s5 by (cases ?e5) simp_all
  have "board s' = b5"
    using mk s1 s2 s3 s4 s5 s6 by (auto simp: Let_def board_update_castling_rights)
  with s1 s2 s3 s4 s5 s6 show ?thesis by blast
qed

lemma make_move_promotion_no_console:
  assumes "is_pawn_promotion m"
  shows "make_move s m None = None"
proof (cases "make_move s m None")
  case None
  then show ?thesis .
next
  case (Some s')
  from make_move_SomeD [OF Some] assms show ?thesis by auto
qed

lemma make_move_promotion_token:
  assumes wf: "wf_board (board s)" and pr: "is_pawn_promotion m"
    and mk: "make_move s m (Some p) = Some s'"
  shows "\<exists>colour. py_get (piece_moved m) 0 = Some colour
           \<and> board_get (board s') (end_r m) (end_c m) = Some (colour # (if p = [] then ''Q'' else p))"
proof -
  from make_move_SomeD [OF mk] pr obtain b1 b2 b3 b4 where
    s1: "board_set (board s) (start_r m) (start_c m) ''--'' = Some b1"
    and s2: "board_set b1 (end_r m) (end_c m) (piece_moved m) = Some b2"
    and s3: "(if is_en_passant m then board_set b2 (start_r m) (end_c m) ''--'' else Some b2) = Some b3"
    and s4: "(case py_get (piece_moved m) 0 of None \<Rightarrow> None
              | Some colour \<Rightarrow>
                  board_set b3 (end_r m) (end_c m)
                    (colour # (if p = [] then ''Q'' else p))) = Some b4"
    and s5: "(if is_castling m then
                 (if end_c m - start_c m = 2
                  then move_rook b4 (end_r m) (end_c m - 1) (end_c m + 1)
                  else move_rook b4 (end_r m) (end_c m + 1) (end_c m - 2))
               else Some b4) = Some (board s')"
    by auto
  from s4 obtain colour where col: "py_get (piece_moved m) 0 = Some colour"
    and s4': "board_set b3 (end_r m) (end_c m) (colour # (if p = [] then ''Q'' else p)) = Some b4"
    by (auto split: option.splits)
  have r0: "rows8 (board s)" using wf_board_rows8 [OF wf] by simp
  have r1: "rows8 b1" by (rule rows8_board_set [OF r0 s1])
  have r2: "rows8 b2" by (rule rows8_board_set [OF r1 s2])
  have r3: "rows8 b3" using s3 r2 by (auto split: if_splits intro: rows8_board_set)
  have r4: "rows8 b4" by (rule rows8_board_set [OF r3 s4'])
  have g4: "board_get b4 (end_r m) (end_c m) = Some (colour # (if p = [] then ''Q'' else p))"
    by (rule board_set_get_same [OF s4'])
  have "board_get (board s') (end_r m) (end_c m) = board_get b4 (end_r m) (end_c m)"
  proof (cases "is_castling m")
    case False
    then show ?thesis using s5 by simp
  next
    case True
    show ?thesis
    proof (cases "end_c m - start_c m = 2")
      case True
      with \<open>is_castling m\<close> s5 have "move_rook b4 (end_r m) (end_c m - 1) (end_c m + 1) = Some (board s')"
        by simp
      from move_rook_keeps [OF r4 this, of "end_c m"] show ?thesis by simp
    next
      case False
      with \<open>is_castling m\<close> s5 have "move_rook b4 (end_r m) (end_c m + 1) (end_c m - 2) = Some (board s')"
        by simp
      from move_rook_keeps [OF r4 this, of "end_c m"] show ?thesis by simp
    qed
  qed
  with g4 col show ?thesis by simp
qed

lemma make_move_returns:
  assumes wf: "wf_board (board s)"
    and sq: "on_board (start_r m, start_c m)" "on_board (end_r m, end_c m)"
    and tok: "2 \<le> length (piece_moved m)" and nc: "\<not> is_castling m"
  shows "make_move s m (Some p) \<noteq> None"
proof -
  have l0: "length (board s) = 8" "rows8 (board s)" using wf_board_rows8 [OF wf] by simp_all
  obtain b1 where s1: "board_set (board s) (start_r m) (start_c m) ''--'' = Some b1"
    using board_set_on_board [OF l0 sq(1)] by blast
  have l1: "length b1 = 8" "rows8 b1"
    using board_set_length [OF s1] l0 rows8_board_set [OF l0(2) s1] by simp_all
  obtain b2 where s2: "board_set b1 (end_r m) (end_c m) (piece_moved m) = Some b2"
    using board_set_on_board [OF l1 sq(2)] by blast
  have l2: "length b2 = 8" "rows8 b2"
    using board_set_length [OF s2] l1 rows8_board_set [OF l1(2) s2] by simp_all
  have k: "py_get (piece_moved m) 1 = Some (piece_moved m ! 1)"
    and c: "py_get (piece_moved m) 0 = Some (piece_moved m ! 0)"
    using tok by (auto simp: py_get_def py_norm_def)
  have sq3: "on_board (start_r m, end_c m)" using sq by (simp add: on_board_def)
  obtain b3 where s3: "(if is_en_passant m then board_set b2 (start_r m) (end_c m) ''--'' else Some b2) = Some b3"
    using board_set_on_board [OF l2 sq3] by (cases "is_en_passant m") auto
  have l3: "length b3 = 8" "rows8 b3"
    using s3 l2 by (auto split: if_splits dest: board_set_length intro: rows8_board_set)
  obtain b4 where s4: "(if is_pawn_promotion m then
        board_set b3 (end_r m) (end_c m)
          (piece_moved m ! 0 # (if p = [] then ''Q'' else p))
      else Some b3) = Some b4"
    using board_set_on_board [OF l3 sq(2)] by (cases "is_pawn_promotion m") auto
  show ?thesis
    unfolding make_move_def
    by (simp only: s1 s2 k c s3 s4 nc Let_def option.case if_False option.distinct not_False_eq_True)
qed

lemma wf_promotion_position: "wf_board (board promotion_position)"
  by (simp add: wf_board_def promotion_position_def)

text \<open>
  C3, as amended.  \<^verbatim>\<open>make_move\<close> has no promotion parameter: given a move flagged
  \<^verbatim>\<open>is_pawn_promotion\<close> it reads the choice from the console inside the call.  Let
  the board be eight rows of eight tokens of at least two characters, and let the
  move be flagged \<^verbatim>\<open>is_pawn_promotion\<close> and not \<^verbatim>\<open>is_castling\<close>, its start and end
  squares be squares of the board, and its \<^verbatim>\<open>piece_moved\<close> be a colour letter followed
  by a kind letter.  Then: with no line to read the call raises; when the
  upper-cased line is empty the call returns and the destination square holds the
  mover's colour letter followed by \<^verbatim>\<open>Q\<close>; and when the upper-cased line is one of
  \<^verbatim>\<open>Q\<close>, \<^verbatim>\<open>R\<close>, \<^verbatim>\<open>B\<close>, \<^verbatim>\<open>N\<close> the call returns and the destination square holds the
  mover's colour letter followed by that letter.
\<close>

theorem make_move_promotion_reads_console:
  assumes wf: "wf_board (board s)"
    and pr: "is_pawn_promotion m" and nc: "\<not> is_castling m"
    and sq: "on_board (start_r m, start_c m)" "on_board (end_r m, end_c m)"
    and tok: "piece_moved m = [colour, kind]"
  shows "make_move s m None = None
         \<and> (\<exists>s'. make_move s m (Some []) = Some s'
                \<and> board_get (board s') (end_r m) (end_c m) = Some [colour, CHR ''Q''])
         \<and> list_all
             (\<lambda>k. \<exists>s'. make_move s m (Some [k]) = Some s'
                      \<and> board_get (board s') (end_r m) (end_c m) = Some [colour, k])
             ''QRBN''"
proof -
  have len: "2 \<le> length (piece_moved m)" using tok by simp
  have col: "py_get (piece_moved m) 0 = Some colour"
    using tok by (simp add: py_get_def py_norm_def)
  have ret: "\<exists>s'. make_move s m (Some p) = Some s'
                \<and> board_get (board s') (end_r m) (end_c m)
                    = Some (colour # (if p = [] then ''Q'' else p))" for p
  proof -
    have "make_move s m (Some p) \<noteq> None"
      by (rule make_move_returns [OF wf sq len nc])
    then obtain s' where s': "make_move s m (Some p) = Some s'" by blast
    from make_move_promotion_token [OF wf pr s'] col s' show ?thesis by auto
  qed
  have none: "make_move s m None = None"
    by (rule make_move_promotion_no_console [OF pr])
  have empty: "\<exists>s'. make_move s m (Some []) = Some s'
                 \<and> board_get (board s') (end_r m) (end_c m) = Some [colour, CHR ''Q'']"
    using ret [of "[]"] by simp
  have one: "\<exists>s'. make_move s m (Some [k]) = Some s'
                 \<and> board_get (board s') (end_r m) (end_c m) = Some [colour, k]" for k
    using ret [of "[k]"] by simp
  show ?thesis using none empty one by simp
qed

theorem make_move_promotion_reads_console_witness:
  "\<exists>m. Move_init (1, 0) (0, 0) (board promotion_position) True False False = Some m
      \<and> wf_board (board promotion_position)
      \<and> is_pawn_promotion m \<and> \<not> is_castling m
      \<and> on_board (start_r m, start_c m) \<and> on_board (end_r m, end_c m)
      \<and> piece_moved m = ''wP''
      \<and> make_move promotion_position m None = None
      \<and> (\<exists>s'. make_move promotion_position m (Some []) = Some s'
             \<and> board_get (board s') 0 0 = Some ''wQ'')
      \<and> (\<exists>s'. make_move promotion_position m (Some ''N'') = Some s'
             \<and> board_get (board s') 0 0 = Some ''wN'')"
proof -
  have w: "wf_board (board promotion_position)" by (rule wf_promotion_position)
  obtain m where m: "Move_init (1, 0) (0, 0) (board promotion_position) True False False = Some m"
    and pr: "is_pawn_promotion m" and nc: "\<not> is_castling m"
    and tok: "piece_moved m = [CHR ''w'', CHR ''P'']"
    and co: "start_r m = 1" "start_c m = 0" "end_r m = 0" "end_c m = 0"
    by (simp add: Move_init_def board_get_def py_get_def py_norm_def promotion_position_def)
  have sq: "on_board (start_r m, start_c m)" "on_board (end_r m, end_c m)"
    using co by (simp_all add: on_board_def)
  note t = make_move_promotion_reads_console [OF w pr nc sq tok]
  show ?thesis using m w pr nc sq tok t co by simp
qed

text \<open>
  C3 as stated fails: the choice is no input of the call.  In \<open>promotion_position\<close>
  the legal promotion a7-a8, applied to the same state, leaves a white rook on a8
  when the console gives \<^verbatim>\<open>R\<close> and a white knight when it gives \<^verbatim>\<open>N\<close>; and with no
  console line the call does not return, where the claim has it default to a queen.
\<close>

theorem promotion_kind_from_console_counterexample:
  "(case get_all_valid_moves promotion_position of None \<Rightarrow> False
    | Some res \<Rightarrow>
        (case find is_pawn_promotion (fst res) of None \<Rightarrow> False
         | Some m \<Rightarrow>
             (start_r m, start_c m, end_r m, end_c m) = (1, 0, 0, 0)
             \<and> make_move (snd res) m None = None
             \<and> (case make_move (snd res) m (Some ''R'') of None \<Rightarrow> False
                | Some s' \<Rightarrow> board_get (board s') 0 0 = Some ''wR'')
             \<and> (case make_move (snd res) m (Some ''N'') of None \<Rightarrow> False
                | Some s' \<Rightarrow> board_get (board s') 0 0 = Some ''wN'')))"
  by code_simp

section \<open>The material classifier and the forced draw\<close>

lemma token_at_wf:
  assumes "wf_board b" "on_board sq"
  shows "board_get b (fst sq) (snd sq) = Some (token_at b sq)"
    and "2 \<le> length (token_at b sq)"
    and "py_get (token_at b sq) 1 = Some (kind_of (token_at b sq))"
    and "py_get (token_at b sq) 0 = Some (colour_of (token_at b sq))"
proof -
  have g: "board_get b (fst sq) (snd sq) = Some (token_at b sq) \<and> 2 \<le> length (token_at b sq)"
    using board_get_wf [OF assms(1), of "fst sq" "snd sq"] assms(2)
    by (simp add: on_board_def token_at_def)
  then show "board_get b (fst sq) (snd sq) = Some (token_at b sq)"
    and "2 \<le> length (token_at b sq)" by simp_all
  with token_chars [of "token_at b sq"]
  show "py_get (token_at b sq) 1 = Some (kind_of (token_at b sq))"
    and "py_get (token_at b sq) 0 = Some (colour_of (token_at b sq))"
    by (simp_all add: kind_of_def colour_of_def)
qed

lemma all_squares_on_board: "list_all on_board all_squares"
  by code_simp

lemma collect_active_material:
  assumes "wf_board b"
  shows "list_all on_board sqs \<Longrightarrow>
           collect_active b sqs acc = Some (acc @ map snd (material_on b sqs))"
proof (induction sqs arbitrary: acc)
  case Nil
  then show ?case by (simp add: material_on_def)
next
  case (Cons sq sqs)
  then have ob: "on_board sq" and rest: "list_all on_board sqs" by simp_all
  note t = token_at_wf [OF assms ob]
  show ?case
    using Cons.IH [OF rest]
    by (simp add: t(1) t(3) material_on_def is_material_def)
qed

lemma bishop_parities_filter:
  assumes "wf_board b"
  shows "list_all on_board sqs \<Longrightarrow>
           bishop_parities b sqs acc
             = Some (parities_of (filter (\<lambda>sq. is_bishop (token_at b sq)) sqs) acc)"
proof (induction sqs arbitrary: acc)
  case Nil
  then show ?case by simp
next
  case (Cons sq sqs)
  then have ob: "on_board sq" and rest: "list_all on_board sqs" by simp_all
  note t = token_at_wf [OF assms ob]
  show ?case
    using Cons.IH [OF rest]
    by (simp add: t(1) t(3) is_bishop_def)
qed

lemma is_bishop_material: "is_bishop p \<Longrightarrow> is_material p"
  by (auto simp: is_bishop_def is_material_def kind_of_def)

lemma bishop_squares_material:
  "filter (\<lambda>sq. is_bishop (token_at b sq)) sqs
     = map fst (filter (\<lambda>x. is_bishop (snd x)) (material_on b sqs))"
  by (induction sqs) (auto simp: material_on_def is_bishop_material)

lemma material_tokens:
  assumes "wf_board b" "list_all on_board sqs" "x \<in> set (material_on b sqs)"
  shows "2 \<le> length (snd x)"
  using assms token_at_wf(2) [OF assms(1)]
  by (auto simp: material_on_def list_all_iff)

lemma parity_sum:
  "((fst p + snd p + (fst q + snd q)) mod 2 = 0) \<longleftrightarrow> (square_parity p = square_parity q)"
  unfolding square_parity_def by presburger

lemma classifier_amended:
  assumes wf: "wf_board (board s)"
  shows "search_for_material_stalemate s = Some (amended_material_draw (material (board s)))"
proof -
  let ?mat = "material (board s)"
  have ca: "collect_active (board s) all_squares [] = Some (map snd ?mat)"
    using collect_active_material [OF wf all_squares_on_board, of "[]"]
    by (simp add: material_def)
  have bp: "bishop_parities (board s) all_squares (0, False, 0)
              = Some (parities_of (map fst (filter (\<lambda>x. is_bishop (snd x)) ?mat)) (0, False, 0))"
    using bishop_parities_filter [OF wf all_squares_on_board]
    by (simp add: bishop_squares_material material_def)
  have tok: "\<And>x. x \<in> set ?mat \<Longrightarrow> 2 \<le> length (snd x)"
    using material_tokens [OF wf all_squares_on_board] by (simp add: material_def)
  have k: "\<And>x. x \<in> set ?mat \<Longrightarrow> py_get (snd x) 1 = Some (kind_of (snd x))
                                 \<and> py_get (snd x) 0 = Some (colour_of (snd x))"
    using token_chars [OF tok] by (simp add: kind_of_def colour_of_def)
  show ?thesis
  proof (cases ?mat)
    case Nil
    then show ?thesis
      by (simp add: search_for_material_stalemate_def ca amended_material_draw_def)
  next
    case (Cons x xs)
    note c1 = this
    show ?thesis
    proof (cases xs)
      case Nil
      with c1 k [of x] show ?thesis
        by (simp add: search_for_material_stalemate_def ca amended_material_draw_def
            py_get_def py_norm_def is_knight_def is_bishop_def)
    next
      case (Cons y ys)
      note c2 = this
      show ?thesis
      proof (cases ys)
        case Nil
        have m: "?mat = [x, y]" using c1 c2 Nil by simp
        have kx: "py_get (snd x) 1 = Some (kind_of (snd x))" "py_get (snd x) 0 = Some (colour_of (snd x))"
          and ky: "py_get (snd y) 1 = Some (kind_of (snd y))" "py_get (snd y) 0 = Some (colour_of (snd y))"
          using k [of x] k [of y] m by simp_all
        show ?thesis
        proof (cases "snd x = snd y \<and> (snd x = ''wB'' \<or> snd x = ''bB'')")
          case True
          have wb: "is_bishop ''wB''" "is_bishop ''bB''"
            by (simp_all add: is_bishop_def kind_of_def)
          have "is_bishop (snd x)" using True wb by metis
          then have bs: "is_bishop (snd x)" "is_bishop (snd y)" using True by simp_all
          have "bishop_parities (board s) all_squares (0, False, 0)
                  = Some (fst (fst x) + snd (fst x), True, fst (fst y) + snd (fst y))"
            using bp m bs by simp
          then show ?thesis using True m
            by (auto simp: search_for_material_stalemate_def ca amended_material_draw_def
                parity_sum)
        next
          case False
          then show ?thesis using m kx ky
            by (auto simp: search_for_material_stalemate_def ca amended_material_draw_def
                is_bishop_def is_knight_def)
        qed
      next
        case (Cons z zs)
        then show ?thesis using c1 c2
          by (simp add: search_for_material_stalemate_def ca amended_material_draw_def)
      qed
    qed
  qed
qed

lemma detector_state: "search_for_pins_and_checks s = Some res \<Longrightarrow> snd res = s"
  by (auto simp: search_for_pins_and_checks_def Let_def split: option.splits)

lemma board_set_king_location [simp]: "board (set_king_location a sq s) = board s"
  by (simp add: set_king_location_def)

lemma get_pawn_moves_board:
  "get_pawn_moves r c ms s = Some res \<Longrightarrow> board (snd res) = board s"
  by (auto simp: get_pawn_moves_def Let_def split: option.splits)

lemma get_knight_moves_board:
  "get_knight_moves r c ms s = Some res \<Longrightarrow> board (snd res) = board s"
  by (auto simp: get_knight_moves_def Let_def split: option.splits)

lemma slide_moves_board:
  "slide_moves dirs r c ms s = Some res \<Longrightarrow> board (snd res) = board s"
  by (auto simp: slide_moves_def Let_def split: option.splits)

lemma king_loop_board:
  "king_loop r c a ds ms s = Some res \<Longrightarrow> board (snd res) = board s"
proof (induction ds arbitrary: ms s)
  case Nil
  then show ?case by auto
next
  case (Cons d ds)
  let ?er = "r + fst d" and ?ec = "c + snd d"
  show ?case
  proof (cases "(0 \<le> ?er \<and> ?er < 8) \<and> (0 \<le> ?ec \<and> ?ec < 8)")
    case False
    with Cons.prems have "king_loop r c a ds ms s = Some res" by (auto simp: Let_def)
    then show ?thesis by (rule Cons.IH)
  next
    case True
    with Cons.prems obtain end_piece colour where
      g: "board_get (board s) ?er ?ec = Some end_piece" "py_get end_piece 0 = Some colour"
      by (auto simp: Let_def split: option.splits)
    show ?thesis
    proof (cases "colour = a")
      case True
      with \<open>(0 \<le> ?er \<and> ?er < 8) \<and> (0 \<le> ?ec \<and> ?ec < 8)\<close> g Cons.prems
      have "king_loop r c a ds ms s = Some res" by (simp add: Let_def)
      then show ?thesis by (rule Cons.IH)
    next
      case False
      with \<open>(0 \<le> ?er \<and> ?er < 8) \<and> (0 \<le> ?ec \<and> ?ec < 8)\<close> g Cons.prems
      obtain det ms' where
        d: "search_for_pins_and_checks (set_king_location a (?er, ?ec) s) = Some det"
        and l: "king_loop r c a ds ms' (set_king_location a (r, c) (snd det)) = Some res"
        by (auto simp: Let_def split: option.splits)
      from Cons.IH [OF l] detector_state [OF d] show ?thesis by simp
    qed
  qed
qed

lemma get_king_moves_board:
  "get_king_moves r c ms s = Some res \<Longrightarrow> board (snd res) = board s"
  by (auto simp: get_king_moves_def Let_def split: option.splits dest: king_loop_board)

lemma move_functions_board:
  "move_functions k = Some gen \<Longrightarrow> gen r c ms s = Some res \<Longrightarrow> board (snd res) = board s"
  by (auto simp: move_functions_def get_bishop_moves_def get_rook_moves_def get_queen_moves_def
      split: if_splits
      dest: get_pawn_moves_board get_knight_moves_board slide_moves_board get_king_moves_board)

lemma possible_moves_row_board:
  "possible_moves_row r cs ms s = Some res \<Longrightarrow> board (snd res) = board s"
proof (induction cs arbitrary: ms s)
  case Nil
  then show ?case by auto
next
  case (Cons c cs)
  from Cons.prems consider
    (skip) "possible_moves_row r cs ms s = Some res"
    | (gen) k g res1 where "move_functions k = Some g" "g r c ms s = Some res1"
        "possible_moves_row r cs (fst res1) (snd res1) = Some res"
    by (auto split: option.splits if_splits)
  then show ?case
  proof cases
    case skip
    then show ?thesis by (rule Cons.IH)
  next
    case gen
    from Cons.IH [OF gen(3)] move_functions_board [OF gen(1,2)] show ?thesis by simp
  qed
qed

lemma possible_moves_rows_board:
  "possible_moves_rows rs ms s = Some res \<Longrightarrow> board (snd res) = board s"
proof (induction rs arbitrary: ms s)
  case Nil
  then show ?case by auto
next
  case (Cons r rs)
  obtain row where row: "py_get (board s) r = Some row"
    using Cons.prems by (cases "py_get (board s) r") simp_all
  obtain res1 where r: "possible_moves_row r (py_range 0 (int (length row))) ms s = Some res1"
    using Cons.prems row
    by (cases "possible_moves_row r (py_range 0 (int (length row))) ms s") simp_all
  have rs: "possible_moves_rows rs (fst res1) (snd res1) = Some res"
    using Cons.prems row r by simp
  from Cons.IH [OF rs] possible_moves_row_board [OF r] show ?case by simp
qed

lemma get_all_possible_moves_board:
  "get_all_possible_moves s = Some res \<Longrightarrow> board (snd res) = board s"
  unfolding get_all_possible_moves_def by (rule possible_moves_rows_board)

lemma single_check_moves_board:
  "single_check_moves kr kc s = Some res \<Longrightarrow> board (snd res) = board s"
  by (auto simp: single_check_moves_def Let_def split: option.splits
      dest: get_all_possible_moves_board)

lemma classifier_board_only:
  "board s' = board s \<Longrightarrow> search_for_material_stalemate s' = search_for_material_stalemate s"
  unfolding search_for_material_stalemate_def by (simp only:)

lemma get_all_valid_moves_classifier:
  assumes "get_all_valid_moves s = Some res"
  shows "\<exists>st. search_for_material_stalemate s = Some st \<and> stalemate (snd res) = st
           \<and> (st \<longrightarrow> fst res = []) \<and> board (snd res) = board s"
proof -
  obtain det0 where "search_for_pins_and_checks s = Some det0"
    using assms by (cases "search_for_pins_and_checks s") (simp_all add: get_all_valid_moves_def)
  with detector_state [OF this] obtain tr where det: "search_for_pins_and_checks s = Some (tr, s)"
    by (cases det0) simp
  define s1 where "s1 = s\<lparr> current_player_is_in_check := fst tr,
                            pins := fst (snd tr), checks := snd (snd tr) \<rparr>"
  define kr where "kr = (if white_to_move s1 then fst (white_king_location s1)
                         else fst (black_king_location s1))"
  define kc where "kc = (if white_to_move s1 then snd (white_king_location s1)
                         else snd (black_king_location s1))"
  define gen where "gen = (if current_player_is_in_check s1 then
                      (if length (checks s1) = 1 then single_check_moves kr kc s1
                       else get_king_moves kr kc [] s1)
                    else get_all_possible_moves s1)"
  have b1: "board s1 = board s" by (simp add: s1_def)
  have eq1: "get_all_valid_moves s =
     (case gen of None \<Rightarrow> None
      | Some res \<Rightarrow>
          (let s2 = snd res;
               s3 = (if length (fst res) = 0 then
                       (if current_player_is_in_check s2 then s2\<lparr>checkmate := True\<rparr>
                        else s2\<lparr>stalemate := True\<rparr>)
                     else s2\<lparr>checkmate := False, stalemate := False\<rparr>)
           in case search_for_material_stalemate s3 of None \<Rightarrow> None
              | Some st \<Rightarrow> Some (if st then [] else fst res, s3\<lparr>stalemate := st\<rparr>)))"
    unfolding get_all_valid_moves_def gen_def kr_def kc_def s1_def
    by (simp only: det option.case Let_def snd_conv fst_conv)
  obtain g where g: "gen = Some g"
    using assms eq1 by (cases gen) simp_all
  have bg: "board (snd g) = board s"
    using g b1 single_check_moves_board [of kr kc s1 g] get_king_moves_board [of kr kc "[]" s1 g]
      get_all_possible_moves_board [of s1 g]
    by (auto simp: gen_def split: if_splits)
  define s3 where "s3 = (if length (fst g) = 0 then
                               (if current_player_is_in_check (snd g) then (snd g)\<lparr>checkmate := True\<rparr>
                                else (snd g)\<lparr>stalemate := True\<rparr>)
                             else (snd g)\<lparr>checkmate := False, stalemate := False\<rparr>)"
  have b3: "board s3 = board s" using bg by (simp add: s3_def)
  have eq: "get_all_valid_moves s =
              (case search_for_material_stalemate s3 of None \<Rightarrow> None
               | Some st \<Rightarrow> Some (if st then [] else fst g, s3\<lparr>stalemate := st\<rparr>))"
    unfolding eq1 s3_def by (simp only: g option.case Let_def)
  obtain st where st: "search_for_material_stalemate s3 = Some st"
    using assms eq by (cases "search_for_material_stalemate s3") simp_all
  have r: "res = (if st then [] else fst g, s3\<lparr>stalemate := st\<rparr>)"
    using assms eq st by simp
  have "search_for_material_stalemate s = Some st"
    using st classifier_board_only [OF b3] by simp
  with r b3 show ?thesis by simp
qed

subsection \<open>The legal-move filter returns on drawn positions\<close>

lemma gen_frame_refl [simp]: "gen_frame s s"
  by (simp add: gen_frame_def)

lemma gen_frame_trans: "gen_frame s s' \<Longrightarrow> gen_frame s' s'' \<Longrightarrow> gen_frame s s''"
  by (simp add: gen_frame_def)

lemma gen_frame_pins [simp]: "gen_frame s (s\<lparr>pins := ps\<rparr>)"
  by (simp add: gen_frame_def)

lemma gen_frame_king [simp]: "gen_frame s (set_king_location a sq s)"
  by (simp add: gen_frame_def set_king_location_def)

lemma good_moves_snoc [simp]: "good_moves (ms @ [m]) \<longleftrightarrow> good_moves ms \<and> 2 \<le> length (piece_moved m)"
  by (simp add: good_moves_def)

lemma Move_init_wf:
  assumes "wf_board b" "on_board a" "on_board e"
  shows "\<exists>m. Move_init a e b p q c = Some m \<and> 2 \<le> length (piece_moved m)"
  using token_at_wf(1,2) [OF assms(1,2)] token_at_wf(1) [OF assms(1,3)]
  by (simp add: Move_init_def)

lemma knight_loop_total:
  assumes "wf_board b" "on_board (r, c)"
  shows "good_moves ms \<Longrightarrow>
           \<exists>ms'. knight_loop b a r c pinned ds ms = Some ms' \<and> good_moves ms'"
proof (induction ds arbitrary: ms)
  case Nil
  then show ?case by simp
next
  case (Cons d ds)
  let ?e = "(r + fst d, c + snd d)"
  show ?case
  proof (cases "on_board ?e")
    case False
    then show ?thesis using Cons.IH [OF Cons.prems] by (auto simp: on_board_def Let_def)
  next
    case True
    note t = token_at_wf [OF assms(1) True]
    obtain m where m: "Move_init (r, c) ?e b False False False = Some m" "2 \<le> length (piece_moved m)"
      using Move_init_wf [OF assms True] by blast
    have "good_moves (ms @ [m])" using Cons.prems m(2) by simp
    from Cons.IH [OF this] Cons.IH [OF Cons.prems] True t m(1)
    show ?thesis by (auto simp: on_board_def Let_def)
  qed
qed

lemma slide_ray_total:
  assumes "wf_board b" "on_board (r, c)"
  shows "good_moves ms \<Longrightarrow>
           \<exists>ms'. slide_ray b e r c pinned pd d ds ms = Some ms' \<and> good_moves ms'"
proof (induction ds arbitrary: ms)
  case Nil
  then show ?case by simp
next
  case (Cons dist ds)
  let ?e = "(r + fst d * dist, c + snd d * dist)"
  show ?case
  proof (cases "on_board ?e")
    case False
    then show ?thesis using Cons.prems by (auto simp: on_board_def Let_def)
  next
    case True
    note t = token_at_wf [OF assms(1) True]
    obtain m where m: "Move_init (r, c) ?e b False False False = Some m" "2 \<le> length (piece_moved m)"
      using Move_init_wf [OF assms True] by blast
    have "good_moves (ms @ [m])" using Cons.prems m(2) by simp
    from Cons.IH [OF this] Cons.IH [OF Cons.prems] True t m Cons.prems
    show ?thesis by (auto simp: on_board_def Let_def)
  qed
qed

lemma slide_dirs_total:
  assumes "wf_board b" "on_board (r, c)"
  shows "good_moves ms \<Longrightarrow>
           \<exists>ms'. slide_dirs b e r c pinned pd dirs ms = Some ms' \<and> good_moves ms'"
proof (induction dirs arbitrary: ms)
  case Nil
  then show ?case by simp
next
  case (Cons d dirs)
  from slide_ray_total [OF assms Cons.prems] obtain ms1 where
    "slide_ray b e r c pinned pd d (py_range 1 8) ms = Some ms1" "good_moves ms1" by blast
  with Cons.IH [OF this(2)] show ?case by simp
qed

lemma get_knight_moves_total:
  assumes "wf_board (board s)" "on_board (r, c)" "good_moves ms"
  shows "\<exists>ms' s'. get_knight_moves r c ms s = Some (ms', s') \<and> good_moves ms' \<and> gen_frame s s'"
proof -
  from knight_loop_total [OF assms] obtain ms' where
    "knight_loop (board s) (if white_to_move s then CHR ''w'' else CHR ''b'') r c
       (fst (take_pin (pins s) r c) \<noteq> None) knight_dirs ms = Some ms'" "good_moves ms'"
    by blast
  then show ?thesis by (simp add: get_knight_moves_def Let_def)
qed

lemma slide_moves_total:
  assumes "wf_board (board s)" "on_board (r, c)" "good_moves ms"
  shows "\<exists>ms' s'. slide_moves dirs r c ms s = Some (ms', s') \<and> good_moves ms' \<and> gen_frame s s'"
proof -
  from slide_dirs_total [OF assms] obtain ms' where
    "slide_dirs (board s) (if white_to_move s then CHR ''b'' else CHR ''w'') r c
       (fst (take_pin (pins s) r c) \<noteq> None) (pin_dir_of (fst (take_pin (pins s) r c))) dirs ms
       = Some ms'" "good_moves ms'"
    by blast
  then show ?thesis by (simp add: slide_moves_def Let_def)
qed

lemma attack_ray_total:
  assumes "wf_board b"
  shows "attack_ray b a e r c j d ds \<noteq> None"
proof (induction ds)
  case Nil
  then show ?case by simp
next
  case (Cons dist ds)
  let ?sq = "(r + fst d * dist, c + snd d * dist)"
  have len: "length b = 8" using assms by (simp add: wf_board_def)
  show ?case
  proof (cases "on_board ?sq")
    case False
    then show ?thesis by (auto simp: on_board_def Let_def len)
  next
    case True
    note t = token_at_wf [OF assms True]
    from True t Cons.IH show ?thesis by (auto simp: on_board_def Let_def len)
  qed
qed

lemma attack_dirs_total:
  assumes "wf_board b"
  shows "attack_dirs b a e r c jds \<noteq> None"
proof (induction jds)
  case Nil
  then show ?case by simp
next
  case (Cons jd jds)
  obtain x where "attack_ray b a e r c (fst jd) (snd jd) (py_range 1 (int (length b))) = Some x"
    using attack_ray_total [OF assms] by blast
  with Cons.IH show ?case by (cases x) simp_all
qed

lemma knight_attacks_total:
  assumes "wf_board b"
  shows "knight_attacks b e r c ds \<noteq> None"
proof (induction ds)
  case Nil
  then show ?case by simp
next
  case (Cons d ds)
  let ?sq = "(r + fst d, c + snd d)"
  have len: "length b = 8" using assms by (simp add: wf_board_def)
  show ?case
  proof (cases "0 \<le> r + fst d \<and> r + fst d < 8")
    case False
    then show ?thesis using Cons.IH by (auto simp: Let_def len)
  next
    case True
    note row = wf_board_row [OF assms, of "r + fst d"]
    show ?thesis
    proof (cases "0 \<le> c + snd d \<and> c + snd d < 8")
      case False
      with True row Cons.IH show ?thesis by (auto simp: Let_def len)
    next
      case c: True
      with True have ob: "on_board ?sq" by (simp add: on_board_def)
      note t = token_at_wf [OF assms ob]
      have g: "py_get (b ! nat (r + fst d)) (c + snd d) = Some (token_at b ?sq)"
        using t(1) row True by (simp add: board_get_def)
      from True c row g t Cons.IH show ?thesis by (auto simp: Let_def len)
    qed
  qed
qed

lemma search_for_attacks_total:
  assumes "wf_board (board s)"
  shows "search_for_attacks s r c e \<noteq> None"
proof -
  let ?a = "if e = CHR ''b'' then CHR ''w'' else CHR ''b''"
  obtain x where x: "attack_dirs (board s) ?a e r c indexed_king_dirs = Some x"
    using attack_dirs_total [OF assms] by blast
  show ?thesis
    using x knight_attacks_total [OF assms, of e r c knight_dirs]
    by (cases x) (simp_all add: search_for_attacks_def Let_def del: not_None_eq)
qed

lemma get_castling_moves_no_rights:
  assumes "wf_board (board s)" "no_castling_rights s"
  shows "get_castling_moves r c ms s = Some ms"
proof -
  let ?e = "if white_to_move s then CHR ''b'' else CHR ''w''"
  let ?k = "if white_to_move s then white_king_location s else black_king_location s"
  obtain x where x: "search_for_attacks s (fst ?k) (snd ?k) ?e = Some x"
    using search_for_attacks_total [OF assms(1)] by blast
  show ?thesis
    using x assms(2)
    by (cases x; cases "white_to_move s") (simp_all add: get_castling_moves_def Let_def no_castling_rights_def)
qed

lemma king_loop_total:
  assumes "on_board (r, c)"
  shows "wf_board (board s) \<Longrightarrow> good_moves ms \<Longrightarrow>
           \<exists>ms' s'. king_loop r c a ds ms s = Some (ms', s') \<and> good_moves ms' \<and> gen_frame s s'"
proof (induction ds arbitrary: ms s)
  case Nil
  then show ?case by simp
next
  case (Cons d ds)
  let ?e = "(r + fst d, c + snd d)"
  show ?case
  proof (cases "on_board ?e")
    case False
    then show ?thesis using Cons.IH [OF Cons.prems] by (auto simp: on_board_def Let_def)
  next
    case True
    note t = token_at_wf [OF Cons.prems(1) True]
    show ?thesis
    proof (cases "colour_of (token_at (board s) ?e) = a")
      case eq: True
      with True t Cons.IH [OF Cons.prems] show ?thesis by (auto simp: on_board_def Let_def)
    next
      case ne: False
      let ?s1 = "set_king_location a ?e s"
      have w1: "wf_board (board ?s1)" using Cons.prems(1) by simp
      obtain tr where det: "search_for_pins_and_checks ?s1 = Some (tr, ?s1)"
        using search_for_pins_and_checks_total [OF w1] by blast
      obtain m where m: "Move_init (r, c) ?e (board s) False False False = Some m"
        "2 \<le> length (piece_moved m)"
        using Move_init_wf [OF Cons.prems(1) assms True] by blast
      let ?ms1 = "if \<not> fst tr then ms @ [m] else ms"
      let ?s2 = "set_king_location a (r, c) ?s1"
      have g1: "good_moves ?ms1" using Cons.prems(2) m(2) by simp
      have w2: "wf_board (board ?s2)" using Cons.prems(1) by simp
      from Cons.IH [OF w2 g1] obtain ms' s' where
        l: "king_loop r c a ds ?ms1 ?s2 = Some (ms', s')" "good_moves ms'" "gen_frame ?s2 s'"
        by blast
      have f: "gen_frame s s'"
        using l(3) by (simp add: gen_frame_def set_king_location_def)
      have "king_loop r c a (d # ds) ms s = king_loop r c a ds ?ms1 ?s2"
        using True t ne det m(1) by (simp add: on_board_def Let_def)
      with l f show ?thesis by simp
    qed
  qed
qed

lemma get_king_moves_total:
  assumes "wf_board (board s)" "no_castling_rights s" "on_board (r, c)" "good_moves ms"
  shows "\<exists>ms' s'. get_king_moves r c ms s = Some (ms', s') \<and> good_moves ms' \<and> gen_frame s s'"
proof -
  from king_loop_total [OF assms(3,1,4)] obtain ms' s' where
    l: "king_loop r c (if white_to_move s then CHR ''w'' else CHR ''b'') king_dirs ms s = Some (ms', s')"
    "good_moves ms'" "gen_frame s s'"
    by blast
  have "wf_board (board s')" "no_castling_rights s'"
    using l(3) assms(1,2) by (simp_all add: gen_frame_def no_castling_rights_def)
  from get_castling_moves_no_rights [OF this] l show ?thesis
    by (simp add: get_king_moves_def Let_def)
qed

lemma on_board_all_squares:
  assumes "on_board sq"
  shows "sq \<in> set all_squares"
proof -
  obtain a b where sq: "sq = (a, b)" by (cases sq)
  have "a \<in> {0..7}" "b \<in> {0..7}" using assms sq by (auto simp: on_board_def)
  then have "(a, b) \<in> (\<Union>x\<in>{0..7}. Pair x ` {0..7})" by blast
  then show ?thesis unfolding sq all_squares_def py_range_def by simp
qed

lemma minor_pieces_onlyD:
  assumes "minor_pieces_only b" "on_board sq"
  shows "token_at b sq = ''--'' \<or> kind_of (token_at b sq) = CHR ''K''
         \<or> kind_of (token_at b sq) = CHR ''N'' \<or> kind_of (token_at b sq) = CHR ''B''"
  using assms on_board_all_squares [OF assms(2)]
  by (simp add: minor_pieces_only_def list_all_iff)

lemma minor_dispatch:
  assumes wf: "wf_board (board s)" and nr: "no_castling_rights s" and ob: "on_board (r, c)"
    and g: "good_moves ms"
    and k: "k = CHR ''K'' \<or> k = CHR ''N'' \<or> k = CHR ''B''"
  shows "\<exists>gen ms' s'. move_functions k = Some gen \<and> gen r c ms s = Some (ms', s')
           \<and> good_moves ms' \<and> gen_frame s s'"
  using k get_king_moves_total [OF wf nr ob g] get_knight_moves_total [OF wf ob g]
    slide_moves_total [OF wf ob g, of bishop_dirs]
  by (auto simp: move_functions_def get_bishop_moves_def)

lemma possible_moves_row_total:
  assumes r: "0 \<le> r" "r < 8"
  shows "wf_board (board s) \<Longrightarrow> minor_pieces_only (board s) \<Longrightarrow> no_castling_rights s \<Longrightarrow>
         good_moves ms \<Longrightarrow> list_all (\<lambda>c. 0 \<le> c \<and> c < 8) cs \<Longrightarrow>
           \<exists>ms' s'. possible_moves_row r cs ms s = Some (ms', s') \<and> good_moves ms'
              \<and> gen_frame s s'"
proof (induction cs arbitrary: ms s)
  case Nil
  then show ?case by simp
next
  case (Cons c cs)
  then have ob: "on_board (r, c)" and rest: "list_all (\<lambda>c. 0 \<le> c \<and> c < 8) cs"
    using r by (simp_all add: on_board_def)
  note t = token_at_wf [OF Cons.prems(1) ob]
  let ?tok = "token_at (board s) (r, c)"
  show ?case
  proof (cases "(white_to_move s \<and> colour_of ?tok = CHR ''w'')
                 \<or> (\<not> white_to_move s \<and> colour_of ?tok = CHR ''b'')")
    case False
    from Cons.IH [OF Cons.prems(1-4) rest] obtain ms' s' where
      "possible_moves_row r cs ms s = Some (ms', s')" "good_moves ms'" "gen_frame s s'"
      by blast
    with False t show ?thesis by auto
  next
    case True
    then have "?tok \<noteq> ''--''" by (auto simp: colour_of_def)
    with minor_pieces_onlyD [OF Cons.prems(2) ob]
    have k: "kind_of ?tok = CHR ''K'' \<or> kind_of ?tok = CHR ''N'' \<or> kind_of ?tok = CHR ''B''"
      by simp
    from minor_dispatch [OF Cons.prems(1,3) ob Cons.prems(4) k] obtain gen ms1 s1 where
      d: "move_functions (kind_of ?tok) = Some gen" "gen r c ms s = Some (ms1, s1)"
      "good_moves ms1" "gen_frame s s1"
      by blast
    have inv: "wf_board (board s1)" "minor_pieces_only (board s1)" "no_castling_rights s1"
      using d(4) Cons.prems(1-3) by (simp_all add: gen_frame_def no_castling_rights_def)
    from Cons.IH [OF inv d(3) rest] obtain ms' s' where
      l: "possible_moves_row r cs ms1 s1 = Some (ms', s')" "good_moves ms'" "gen_frame s1 s'"
      by blast
    have "possible_moves_row r (c # cs) ms s = possible_moves_row r cs ms1 s1"
      using True t d(1,2) by auto
    with l gen_frame_trans [OF d(4) l(3)] show ?thesis by simp
  qed
qed

lemma possible_moves_rows_total:
  "wf_board (board s) \<Longrightarrow> minor_pieces_only (board s) \<Longrightarrow> no_castling_rights s \<Longrightarrow>
   good_moves ms \<Longrightarrow> list_all (\<lambda>r. 0 \<le> r \<and> r < 8) rs \<Longrightarrow>
     \<exists>ms' s'. possible_moves_rows rs ms s = Some (ms', s') \<and> good_moves ms' \<and> gen_frame s s'"
proof (induction rs arbitrary: ms s)
  case Nil
  then show ?case by simp
next
  case (Cons r rs)
  then have r: "0 \<le> r" "r < 8" and rest: "list_all (\<lambda>r. 0 \<le> r \<and> r < 8) rs" by simp_all
  note row = wf_board_row [OF Cons.prems(1) r]
  have cs: "list_all (\<lambda>c. 0 \<le> c \<and> c < 8) (py_range 0 (int (length (board s ! nat r))))"
    using row by (simp add: py_range_def list_all_iff)
  from possible_moves_row_total [OF r Cons.prems(1-4) cs] obtain ms1 s1 where
    d: "possible_moves_row r (py_range 0 (int (length (board s ! nat r)))) ms s = Some (ms1, s1)"
    "good_moves ms1" "gen_frame s s1"
    by blast
  have inv: "wf_board (board s1)" "minor_pieces_only (board s1)" "no_castling_rights s1"
    using d(3) Cons.prems(1-3) by (simp_all add: gen_frame_def no_castling_rights_def)
  from Cons.IH [OF inv d(2) rest] obtain ms' s' where
    l: "possible_moves_rows rs ms1 s1 = Some (ms', s')" "good_moves ms'" "gen_frame s1 s'"
    by blast
  have "possible_moves_rows (r # rs) ms s = possible_moves_rows rs ms1 s1"
    using row d(1) by simp
  with l gen_frame_trans [OF d(3) l(3)] show ?case by simp
qed

lemma get_all_possible_moves_total:
  assumes "wf_board (board s)" "minor_pieces_only (board s)" "no_castling_rights s"
  shows "\<exists>ms' s'. get_all_possible_moves s = Some (ms', s') \<and> good_moves ms' \<and> gen_frame s s'"
proof -
  have "length (board s) = 8" using assms(1) by (simp add: wf_board_def)
  then have rs: "list_all (\<lambda>r. 0 \<le> r \<and> r < 8) (py_range 0 (int (length (board s))))"
    by (simp add: py_range_def list_all_iff)
  have g: "good_moves []" by (simp add: good_moves_def)
  from possible_moves_rows_total [OF assms g rs] show ?thesis
    by (simp add: get_all_possible_moves_def)
qed

lemma pin_ray_checks:
  "checks_on_board z \<Longrightarrow> pin_ray b a e kr kc j d ds pp (x, y, z) = Some acc' \<Longrightarrow>
     checks_on_board (snd (snd acc'))"
proof (induction ds arbitrary: pp)
  case Nil
  then show ?case by auto
next
  case (Cons dist ds)
  from Cons.prems(2) Cons.IH [OF Cons.prems(1)] Cons.prems(1) show ?case
    by (auto simp: Let_def checks_on_board_def on_board_def split: option.splits if_splits)
qed

lemma pin_dirs_checks:
  "checks_on_board (snd (snd acc)) \<Longrightarrow> pin_dirs b a e kr kc jds acc = Some acc' \<Longrightarrow>
     checks_on_board (snd (snd acc'))"
proof (induction jds arbitrary: acc)
  case Nil
  then show ?case by auto
next
  case (Cons jd jds)
  from Cons.prems(2) obtain acc1 where
    r: "pin_ray b a e kr kc (fst jd) (snd jd) (py_range 1 8) None acc = Some acc1"
    and d: "pin_dirs b a e kr kc jds acc1 = Some acc'"
    by (auto split: option.splits)
  have "checks_on_board (snd (snd acc1))"
    using pin_ray_checks [of "snd (snd acc)" b a e kr kc "fst jd" "snd jd" "py_range 1 8" None
        "fst acc" "fst (snd acc)" acc1] Cons.prems(1) r by simp
  from Cons.IH [OF this d] show ?case .
qed

lemma knight_checks_checks:
  "checks_on_board y \<Longrightarrow> knight_checks b e kr kc ds (x, y) = Some acc' \<Longrightarrow>
     checks_on_board (snd acc')"
proof (induction ds arbitrary: x y)
  case Nil
  then show ?case by auto
next
  case (Cons d ds)
  let ?sq = "(kr + fst d, kc + snd d)"
  show ?case
  proof (cases "on_board ?sq")
    case False
    with Cons.prems(2) have "knight_checks b e kr kc ds (x, y) = Some acc'"
      by (auto simp: Let_def on_board_def)
    from Cons.IH [OF Cons.prems(1) this] show ?thesis .
  next
    case True
    then have y': "checks_on_board (y @ [(kr + fst d, kc + snd d, fst d, snd d)])"
      using Cons.prems(1) by (simp add: checks_on_board_def)
    from Cons.prems(2) True consider
      "knight_checks b e kr kc ds (x, y) = Some acc'"
      | "knight_checks b e kr kc ds (True, y @ [(kr + fst d, kc + snd d, fst d, snd d)]) = Some acc'"
      by (auto simp: Let_def on_board_def split: option.splits if_splits)
    then show ?thesis
      using Cons.IH [OF Cons.prems(1)] Cons.IH [OF y'] by cases auto
  qed
qed

lemma detector_checks_on_board:
  assumes "search_for_pins_and_checks s = Some (tr, s')"
  shows "checks_on_board (snd (snd tr))"
proof -
  let ?e = "if white_to_move s then CHR ''b'' else CHR ''w''"
  let ?a = "if white_to_move s then CHR ''w'' else CHR ''b''"
  let ?r = "if white_to_move s then fst (white_king_location s) else fst (black_king_location s)"
  let ?c = "if white_to_move s then snd (white_king_location s) else snd (black_king_location s)"
  from assms obtain acc kacc where
    a: "pin_dirs (board s) ?a ?e ?r ?c indexed_king_dirs (False, [], []) = Some acc"
    and k: "knight_checks (board s) ?e ?r ?c knight_dirs (fst acc, snd (snd acc)) = Some kacc"
    and tr: "tr = (fst kacc, fst (snd acc), snd kacc)"
    unfolding search_for_pins_and_checks_def Let_def
    by (auto split: option.splits)
  have "checks_on_board (snd (snd acc))"
    using pin_dirs_checks [OF _ a] by (simp add: checks_on_board_def)
  from knight_checks_checks [OF this k] tr show ?thesis by simp
qed

lemma remove_move_length:
  "m \<in> set ms \<Longrightarrow> Suc (length (remove_move m ms)) = length ms"
  by (induction ms) auto

lemma remove_move_good: "good_moves ms \<Longrightarrow> good_moves (remove_move m ms)"
  by (induction ms) (auto simp: good_moves_def)

lemma rev_py_range_Suc: "rev (py_range 0 (int (Suc n))) = int n # rev (py_range 0 (int n))"
proof -
  have "[0..int n] = [0..int n - 1] @ [int n]" by (rule upto_rec2) simp
  then show ?thesis by (simp add: py_range_def)
qed

lemma prune_moves_total:
  "good_moves ms \<Longrightarrow> n \<le> length ms \<Longrightarrow>
     prune_moves (rev (py_range 0 (int n))) vs ms \<noteq> None"
proof (induction n arbitrary: ms)
  case 0
  then show ?case by (simp add: py_range_def)
next
  case (Suc n)
  let ?m = "ms ! n"
  have n: "n < length ms" using Suc.prems(2) by simp
  then have mem: "?m \<in> set ms" by simp
  have g: "py_get ms (int n) = Some ?m" using n by (simp add: py_get_def py_norm_def)
  have "2 \<le> length (piece_moved ?m)"
    using Suc.prems(1) mem by (simp add: good_moves_def list_all_iff)
  then have k: "py_get (piece_moved ?m) 1 = Some (piece_moved ?m ! 1)"
    by (simp add: token_chars)
  have l1: "n \<le> length ms" using n by simp
  have l2: "n \<le> length (remove_move ?m ms)" using remove_move_length [OF mem] n by simp
  from Suc.IH [OF Suc.prems(1) l1] Suc.IH [OF remove_move_good [OF Suc.prems(1)] l2]
  show ?case
    unfolding rev_py_range_Suc by (simp add: g k del: not_None_eq)
qed

lemma single_check_moves_total:
  assumes wf: "wf_board (board s)" and mo: "minor_pieces_only (board s)"
    and nr: "no_castling_rights s" and ch: "length (checks s) = 1" "checks_on_board (checks s)"
  shows "\<exists>ms' s'. single_check_moves kr kc s = Some (ms', s') \<and> gen_frame s s'"
proof -
  from get_all_possible_moves_total [OF wf mo nr] obtain ms1 s1 where
    p: "get_all_possible_moves s = Some (ms1, s1)" "good_moves ms1" "gen_frame s s1"
    by blast
  have cs1: "checks s1 = checks s" and b1: "board s1 = board s"
    using p(3) by (simp_all add: gen_frame_def)
  obtain ci where ci: "checks s = [ci]" using ch(1) by (cases "checks s") auto
  then have g0: "py_get (checks s1) 0 = Some ci" by (simp add: cs1 py_get_def py_norm_def)
  have ob: "on_board (fst ci, fst (snd ci))" using ch(2) ci by (simp add: checks_on_board_def)
  note t = token_at_wf [OF wf ob]
  let ?vs = "if kind_of (token_at (board s) (fst ci, fst (snd ci))) = CHR ''N''
             then [(fst ci, fst (snd ci))]
             else valid_squares_loop kr kc ci (py_range 1 8) []"
  obtain ms' where pr: "prune_moves (rev (py_range 0 (int (length ms1)))) ?vs ms1 = Some ms'"
    using prune_moves_total [OF p(2), of "length ms1" ?vs] by auto
  have "single_check_moves kr kc s = Some (ms', s1)"
    using p(1) g0 t pr by (simp add: single_check_moves_def b1 Let_def)
  with p(3) show ?thesis by blast
qed

lemma amended_kinds:
  assumes "amended_material_draw mat" "x \<in> set mat"
  shows "is_knight (snd x) \<or> is_bishop (snd x)"
proof -
  have std: "is_bishop ''wB''" "is_bishop ''bB''" "is_knight ''wN''" "is_knight ''bN''"
    by (simp_all add: is_bishop_def is_knight_def kind_of_def)
  from assms consider
    (one) y where "mat = [y]" "is_knight (snd y) \<or> is_bishop (snd y)"
    | (two) y z where "mat = [y, z]"
        "(snd y = snd z \<and> (snd y = ''wB'' \<or> snd y = ''bB''))
         \<or> (is_bishop (snd y) \<and> is_bishop (snd z))
         \<or> (snd y = snd z \<and> (snd y = ''wN'' \<or> snd y = ''bN''))"
    by (auto simp: amended_material_draw_def split: list.splits)
  then show ?thesis
  proof cases
    case one
    with assms(2) show ?thesis by auto
  next
    case two
    from two(2) have "(is_knight (snd y) \<or> is_bishop (snd y)) \<and> (is_knight (snd z) \<or> is_bishop (snd z))"
      using std by metis
    with two(1) assms(2) show ?thesis by auto
  qed
qed

lemma amended_minor_pieces_only:
  assumes "amended_material_draw (material b)"
  shows "minor_pieces_only b"
proof -
  have "token_at b sq = ''--'' \<or> kind_of (token_at b sq) = CHR ''K''
        \<or> kind_of (token_at b sq) = CHR ''N'' \<or> kind_of (token_at b sq) = CHR ''B''"
    if "sq \<in> set all_squares" for sq
  proof (cases "is_material (token_at b sq)")
    case False
    then show ?thesis by (auto simp: is_material_def)
  next
    case True
    with that have "(sq, token_at b sq) \<in> set (material b)"
      by (auto simp: material_def material_on_def)
    from amended_kinds [OF assms this] show ?thesis
      by (auto simp: is_knight_def is_bishop_def)
  qed
  then show ?thesis by (simp add: minor_pieces_only_def list_all_iff)
qed

lemma get_all_valid_moves_total:
  assumes wf: "wf_board (board s)" and dr: "amended_material_draw (material (board s))"
    and nr: "no_castling_rights s"
    and kl: "on_board (white_king_location s)" "on_board (black_king_location s)"
  shows "get_all_valid_moves s \<noteq> None"
proof -
  obtain tr where det: "search_for_pins_and_checks s = Some (tr, s)"
    using search_for_pins_and_checks_total [OF wf] by blast
  define s1 where "s1 = s\<lparr> current_player_is_in_check := fst tr,
                            pins := fst (snd tr), checks := snd (snd tr) \<rparr>"
  define kr where "kr = (if white_to_move s1 then fst (white_king_location s1)
                         else fst (black_king_location s1))"
  define kc where "kc = (if white_to_move s1 then snd (white_king_location s1)
                         else snd (black_king_location s1))"
  define gen where "gen = (if current_player_is_in_check s1 then
                      (if length (checks s1) = 1 then single_check_moves kr kc s1
                       else get_king_moves kr kc [] s1)
                    else get_all_possible_moves s1)"
  have b1: "board s1 = board s" by (simp add: s1_def)
  have w1: "wf_board (board s1)" using wf b1 by simp
  have m1: "minor_pieces_only (board s1)" using amended_minor_pieces_only [OF dr] b1 by simp
  have n1: "no_castling_rights s1" using nr by (simp add: s1_def no_castling_rights_def)
  have c1: "checks_on_board (checks s1)"
    using detector_checks_on_board [OF det] by (simp add: s1_def)
  have k1: "on_board (kr, kc)" using kl by (simp add: kr_def kc_def s1_def)
  have g0: "good_moves []" by (simp add: good_moves_def)
  have "\<exists>g. gen = Some g \<and> board (snd g) = board s"
  proof (cases "current_player_is_in_check s1")
    case False
    with get_all_possible_moves_total [OF w1 m1 n1] b1 show ?thesis
      by (auto simp: gen_def gen_frame_def)
  next
    case True
    show ?thesis
    proof (cases "length (checks s1) = 1")
      case one: True
      with True single_check_moves_total [OF w1 m1 n1 one c1, of kr kc] b1 show ?thesis
        by (auto simp: gen_def gen_frame_def)
    next
      case False
      with True get_king_moves_total [OF w1 n1 k1 g0] b1 show ?thesis
        by (auto simp: gen_def gen_frame_def)
    qed
  qed
  then obtain g where g: "gen = Some g" and bg: "board (snd g) = board s" by blast
  define s3 where "s3 = (if length (fst g) = 0 then
                               (if current_player_is_in_check (snd g) then (snd g)\<lparr>checkmate := True\<rparr>
                                else (snd g)\<lparr>stalemate := True\<rparr>)
                             else (snd g)\<lparr>checkmate := False, stalemate := False\<rparr>)"
  have b3: "board s3 = board s" using bg by (simp add: s3_def)
  have eq: "get_all_valid_moves s =
              (case search_for_material_stalemate s3 of None \<Rightarrow> None
               | Some st \<Rightarrow> Some (if st then [] else fst g, s3\<lparr>stalemate := st\<rparr>))"
    unfolding get_all_valid_moves_def
    by (simp only: det option.case Let_def snd_conv fst_conv s1_def [symmetric] kr_def [symmetric]
        kc_def [symmetric] gen_def [symmetric] g s3_def [symmetric])
  have "wf_board (board s3)" using wf b3 by simp
  from classifier_amended [OF this] eq show ?thesis by simp
qed

text \<open>
  C5, as amended.  On every well-formed board the classifier returns, and it
  declares a draw exactly when the non-king material is empty, or one knight or
  bishop, or two bishops of one team on squares of equal parity, or two bishops of
  different colours, or two knights of one team; three or more pieces are never a
  draw.  Whenever it declares a draw, every list \<^verbatim>\<open>get_all_valid_moves\<close> returns is
  empty, with the stalemate flag set; and \<^verbatim>\<open>get_all_valid_moves\<close> does return
  there when both king caches are on the board and no castling right is left.
\<close>

theorem material_classifier_amended:
  assumes "wf_board (board s)"
  shows "search_for_material_stalemate s = Some (amended_material_draw (material (board s)))
         \<and> (\<forall>ms s'. get_all_valid_moves s = Some (ms, s')
                \<and> amended_material_draw (material (board s))
              \<longrightarrow> ms = [] \<and> stalemate s')
         \<and> (amended_material_draw (material (board s)) \<and> no_castling_rights s
              \<and> on_board (white_king_location s) \<and> on_board (black_king_location s)
              \<longrightarrow> (\<exists>s'. get_all_valid_moves s = Some ([], s') \<and> stalemate s'))"
proof -
  have c: "search_for_material_stalemate s = Some (amended_material_draw (material (board s)))"
    by (rule classifier_amended [OF assms])
  have e: "ms = [] \<and> stalemate s'"
    if "get_all_valid_moves s = Some (ms, s')" "amended_material_draw (material (board s))"
    for ms s'
    using get_all_valid_moves_classifier [OF that(1)] c that(2) by auto
  have "\<exists>s'. get_all_valid_moves s = Some ([], s') \<and> stalemate s'"
    if d: "amended_material_draw (material (board s))" and "no_castling_rights s"
      "on_board (white_king_location s)" "on_board (black_king_location s)"
  proof -
    from get_all_valid_moves_total [OF assms that] obtain ms s' where
      g: "get_all_valid_moves s = Some (ms, s')" by auto
    from e [OF g d] g show ?thesis by simp
  qed
  with c e show ?thesis by blast
qed

lemma wf_bishop_draw_position: "wf_board (board bishop_draw_position)"
  by (simp add: wf_board_def bishop_draw_position_def)

theorem material_classifier_amended_witness:
  "wf_board (board bishop_draw_position)
   \<and> amended_material_draw (material (board bishop_draw_position))
   \<and> no_castling_rights bishop_draw_position
   \<and> search_for_material_stalemate bishop_draw_position = Some True
   \<and> map_option (\<lambda>res. length (fst res)) (get_all_possible_moves bishop_draw_position) = Some 12
   \<and> (\<exists>s'. get_all_valid_moves bishop_draw_position = Some ([], s') \<and> stalemate s')"
proof -
  note w = wf_bishop_draw_position
  have a: "amended_material_draw (material (board bishop_draw_position))"
    by code_simp
  have p: "map_option (\<lambda>res. length (fst res)) (get_all_possible_moves bishop_draw_position) = Some 12"
    by code_simp
  have n: "no_castling_rights bishop_draw_position"
    and k: "on_board (white_king_location bishop_draw_position)"
      "on_board (black_king_location bishop_draw_position)"
    by (simp_all add: no_castling_rights_def on_board_def bishop_draw_position_def)
  note t = material_classifier_amended [OF w]
  from t a have "search_for_material_stalemate bishop_draw_position = Some True" by simp
  moreover from t a n k
  have "\<exists>s'. get_all_valid_moves bishop_draw_position = Some ([], s') \<and> stalemate s'"
    by blast
  ultimately show ?thesis using w a n p by simp
qed

text \<open>
  C5 as stated fails: with two white bishops and one black bishop the material is
  "bishops of both colours with no other piece", yet the classifier declares no draw
  and \<^verbatim>\<open>get_all_valid_moves\<close> returns 18 moves with the stalemate flag false.
\<close>

theorem three_bishops_counterexample:
  "spec_material_draw (material (board three_bishops_position))
   \<and> search_for_material_stalemate three_bishops_position = Some False
   \<and> (case get_all_valid_moves three_bishops_position of None \<Rightarrow> False
      | Some res \<Rightarrow> length (fst res) = 18 \<and> stalemate (snd res) = False)"
  by code_simp

end
